theory Spec2Isabelle
  imports Main "HOL-Library.Word"
begin

unbundle bit_operations_syntax

section \<open>Bytes and machine sizes\<close>

text \<open>
  Buffers are lists of bytes. \<open>size_t\<close> is taken to be 64 bits wide; where the source
  adds two \<open>size_t\<close> values the wrap-around is written out with \<open>mod size_t_limit\<close>.
\<close>

type_synonym byte = "8 word"
type_synonym bytes = "8 word list"

definition size_t_limit :: nat where
  "size_t_limit = 2 ^ 64"

text \<open>\<open>std::memcpy(buf + off, src, |src|)\<close> on a buffer that holds the target range.\<close>

definition memcpy_at :: "bytes \<Rightarrow> nat \<Rightarrow> bytes \<Rightarrow> bytes" where
  "memcpy_at buf off src = take off buf @ src @ drop (off + length src) buf"

section \<open>serialization.h: FixedBufferSerializer\<close>

record FixedBufferSerializer =
  s_buffer :: bytes
  s_cursor :: nat
  s_has_error :: bool

definition new_serializer :: "bytes \<Rightarrow> FixedBufferSerializer" where
  "new_serializer buf = \<lparr>s_buffer = buf, s_cursor = 0, s_has_error = False\<rparr>"

definition serialized_buffer :: "FixedBufferSerializer \<Rightarrow> bytes" where
  "serialized_buffer s = take (s_cursor s) (s_buffer s)"

definition can_write :: "FixedBufferSerializer \<Rightarrow> nat \<Rightarrow> bool \<times> FixedBufferSerializer" where
  "can_write s num =
     (if s_has_error s then (False, s)
      else if (s_cursor s + num) mod size_t_limit > length (s_buffer s)
        then (False, s\<lparr>s_has_error := True\<rparr>)
      else (True, s))"

definition ser_write :: "FixedBufferSerializer \<Rightarrow> bytes \<Rightarrow> bool \<times> FixedBufferSerializer" where
  "ser_write s src =
     (case can_write s (length src) of
        (False, s') \<Rightarrow> (False, s')
      | (True, s') \<Rightarrow>
          (True, s'\<lparr>s_buffer := memcpy_at (s_buffer s') (s_cursor s') src,
                     s_cursor := (s_cursor s' + length src) mod size_t_limit\<rparr>))"

definition ser_advance :: "FixedBufferSerializer \<Rightarrow> nat \<Rightarrow> bool \<times> FixedBufferSerializer" where
  "ser_advance s off =
     (case can_write s off of
        (False, s') \<Rightarrow> (False, s')
      | (True, s') \<Rightarrow> (True, s'\<lparr>s_cursor := (s_cursor s' + off) mod size_t_limit\<rparr>))"

definition get_remaining_bytes :: "FixedBufferSerializer \<Rightarrow> nat" where
  "get_remaining_bytes s =
     (length (s_buffer s) + size_t_limit - s_cursor s) mod size_t_limit"

definition ser_reset :: "FixedBufferSerializer \<Rightarrow> FixedBufferSerializer" where
  "ser_reset s = s\<lparr>s_cursor := 0, s_has_error := False\<rparr>"

text \<open>
  The calls that take a size: \<open>write\<close> and \<open>advance\<close>. \<open>ser_calls\<close> runs a sequence of
  them on one serializer and collects what each call returned.
\<close>

datatype ser_call = Write bytes | Advance nat

fun do_call :: "FixedBufferSerializer \<Rightarrow> ser_call \<Rightarrow> bool \<times> FixedBufferSerializer" where
  "do_call s (Write src) = ser_write s src"
| "do_call s (Advance off) = ser_advance s off"

fun ser_calls :: "FixedBufferSerializer \<Rightarrow> ser_call list \<Rightarrow> bool list \<times> FixedBufferSerializer" where
  "ser_calls s [] = ([], s)"
| "ser_calls s (c # cs) =
     (case do_call s c of (ok, s') \<Rightarrow>
        (case ser_calls s' cs of (oks, s'') \<Rightarrow> (ok # oks, s'')))"

section \<open>serialization.h: FixedBufferDeserializer\<close>

text \<open>
  The deserializer compares \<open>_buffer.size() - _cursor\<close> with the requested size. Its
  cursor starts at 0 and only moves by a size that passed this check, so it never exceeds
  the buffer size and neither the subtraction nor the addition wraps.
\<close>

record FixedBufferDeserializer =
  d_buffer :: bytes
  d_cursor :: nat
  d_has_error :: bool

definition new_deserializer :: "bytes \<Rightarrow> FixedBufferDeserializer" where
  "new_deserializer buf = \<lparr>d_buffer = buf, d_cursor = 0, d_has_error = False\<rparr>"

definition remaining_buffer :: "FixedBufferDeserializer \<Rightarrow> bytes" where
  "remaining_buffer d = drop (d_cursor d) (d_buffer d)"

definition can_read :: "FixedBufferDeserializer \<Rightarrow> nat \<Rightarrow> bool \<times> FixedBufferDeserializer" where
  "can_read d num =
     (if d_has_error d then (False, d)
      else if length (d_buffer d) - d_cursor d < num
        then (False, d\<lparr>d_has_error := True\<rparr>)
      else (True, d))"

text \<open>
  \<open>read(dst)\<close>: \<open>dst\<close> is the current content of the destination span; the result
  carries its content after the call (unchanged when the read fails).
\<close>

definition des_read ::
  "FixedBufferDeserializer \<Rightarrow> bytes \<Rightarrow> bool \<times> bytes \<times> FixedBufferDeserializer" where
  "des_read d dst =
     (case can_read d (length dst) of
        (False, d') \<Rightarrow> (False, dst, d')
      | (True, d') \<Rightarrow>
          (True, take (length dst) (drop (d_cursor d') (d_buffer d')),
           d'\<lparr>d_cursor := d_cursor d' + length dst\<rparr>))"

definition des_advance :: "FixedBufferDeserializer \<Rightarrow> nat \<Rightarrow> bool \<times> FixedBufferDeserializer" where
  "des_advance d off =
     (case can_read d off of
        (False, d') \<Rightarrow> (False, d')
      | (True, d') \<Rightarrow> (True, d'\<lparr>d_cursor := d_cursor d' + off\<rparr>))"

section \<open>serialization.h: byte order and integers\<close>

datatype endian = Little | Big

text \<open>
  The object representation of an unsigned integer of \<open>LENGTH('a) div 8\<close> bytes:
  \<open>nat_to_bytes\<close> lists its bytes from the least significant one, \<open>bytes_to_nat\<close> reads
  such a list back. \<open>object_bytes native v\<close> is what \<open>reinterpret_cast<const uint8_t *>(&v)\<close>
  points to on a host whose byte order is \<open>native\<close>, and \<open>object_of_bytes\<close> is the value of
  an object after \<open>memcpy\<close> into it.
\<close>

fun nat_to_bytes :: "nat \<Rightarrow> nat \<Rightarrow> bytes" where
  "nat_to_bytes 0 n = []"
| "nat_to_bytes (Suc k) n = of_nat (n mod 256) # nat_to_bytes k (n div 256)"

fun bytes_to_nat :: "bytes \<Rightarrow> nat" where
  "bytes_to_nat [] = 0"
| "bytes_to_nat (b # bs) = unat b + 256 * bytes_to_nat bs"

definition sizeof :: "'a::len word \<Rightarrow> nat" where
  "sizeof v = LENGTH('a) div 8"

definition object_bytes :: "endian \<Rightarrow> 'a::len word \<Rightarrow> bytes" where
  "object_bytes native v =
     (if native = Little then nat_to_bytes (sizeof v) (unat v)
      else rev (nat_to_bytes (sizeof v) (unat v)))"

definition object_of_bytes :: "endian \<Rightarrow> bytes \<Rightarrow> 'a::len word" where
  "object_of_bytes native bs =
     of_nat (bytes_to_nat (if native = Little then bs else rev bs))"

text \<open>\<open>__builtin_bswap16/32/64\<close>: the same bytes in reverse order.\<close>

definition bswap :: "'a::len word \<Rightarrow> 'a word" where
  "bswap v = of_nat (bytes_to_nat (rev (nat_to_bytes (sizeof v) (unat v))))"

definition to_endian :: "endian \<Rightarrow> endian \<Rightarrow> 'a::len word \<Rightarrow> 'a word" where
  "to_endian Endianess native v =
     (if Endianess = native then v
      else if sizeof v = 1 then v
      else bswap v)"

text \<open>\<open>serialize(Serializer, integral)\<close> and \<open>serialize(Deserializer, integral &)\<close>.\<close>

definition serialize_integral ::
  "endian \<Rightarrow> endian \<Rightarrow> FixedBufferSerializer \<Rightarrow> 'a::len word \<Rightarrow> bool \<times> FixedBufferSerializer" where
  "serialize_integral Endianess native s v =
     ser_write s (object_bytes native (to_endian Endianess native v))"

definition deserialize_integral ::
  "endian \<Rightarrow> endian \<Rightarrow> FixedBufferDeserializer \<Rightarrow> 'a::len word
     \<Rightarrow> bool \<times> 'a word \<times> FixedBufferDeserializer" where
  "deserialize_integral Endianess native d v =
     (case des_read d (object_bytes native v) of
        (res, dst, d') \<Rightarrow> (res, to_endian Endianess native (object_of_bytes native dst), d'))"

text \<open>\<open>read<T>(des)\<close>: \<open>T v{}; serialize(des, v); return v;\<close>\<close>

definition read_integral ::
  "endian \<Rightarrow> endian \<Rightarrow> FixedBufferDeserializer \<Rightarrow> 'a::len word \<times> FixedBufferDeserializer" where
  "read_integral Endianess native d =
     (case deserialize_integral Endianess native d 0 of (res, v, d') \<Rightarrow> (v, d'))"

text \<open>\<open>read_string(des, len)\<close>: the string is resized to \<open>len\<close> zero bytes, then read into.\<close>

definition read_string :: "FixedBufferDeserializer \<Rightarrow> nat \<Rightarrow> bytes \<times> FixedBufferDeserializer" where
  "read_string d len =
     (case des_read d (replicate len 0) of (res, str, d') \<Rightarrow> (str, d'))"

text \<open>
  The protocol code below runs little-endian (de)serializers. What these write and read
  does not depend on the host's byte order (\<open>serialize_integral_little\<close>,
  \<open>read_integral_little\<close> below), so the protocol functions are written for one host.
\<close>

definition host_endian :: endian where
  "host_endian = Little"

section \<open>omcon.cpp: data types\<close>

text \<open>
  \<open>DataType\<close> is an enumeration over one byte. Its named values are the constructors
  below (\<open>Int_t\<close> is the enumerator \<open>Int\<close>, a name Isabelle reserves); \<open>Unknown b\<close>
  stands for a value that is none of them, \<open>b\<close> being its byte.
  The header that gives the enumerators their byte values is not among the sources, so
  wherever a byte is cast to a \<open>DataType\<close> the cast is a parameter of the model.
\<close>

datatype DataType =
    Undefined | Date | Time | DateAndTime | TimeOfDay | Bool | Sint | Int_t | Dint | Lint
  | Usint | Uint | Udint | Ulint | Real | Lreal | String | Byte | Word | Dword | Lword
  | Time2 | AbbreviatedStructure | Structure | Array | Unknown byte

text \<open>
  Hexadecimal output of the formatting library: \<open>{:x}\<close> prints lower-case digits without
  leading zeros, \<open>{:#x}\<close> puts \<open>0x\<close> in front.
\<close>

definition hex_digit :: "nat \<Rightarrow> char" where
  "hex_digit n = ''0123456789abcdef'' ! n"

fun hex :: "nat \<Rightarrow> string" where
  "hex n = (if n < 16 then [hex_digit n] else hex (n div 16) @ [hex_digit (n mod 16)])"

declare hex.simps [simp del]

definition hex_alt :: "nat \<Rightarrow> string" where
  "hex_alt n = ''0x'' @ hex n"

fun to_string :: "DataType \<Rightarrow> string" where
  "to_string Undefined = ''UNDEFINED''"
| "to_string Date = ''DATE''"
| "to_string Time = ''TIME''"
| "to_string DateAndTime = ''DATE_AND_TIME''"
| "to_string TimeOfDay = ''TIME_OF_DAY''"
| "to_string Bool = ''BOOL''"
| "to_string Sint = ''SINT''"
| "to_string Int_t = ''INT''"
| "to_string Dint = ''DINT''"
| "to_string Lint = ''LINT''"
| "to_string Usint = ''USINT''"
| "to_string Uint = ''UINT''"
| "to_string Udint = ''UDINT''"
| "to_string Ulint = ''ULINT''"
| "to_string Real = ''REAL''"
| "to_string Lreal = ''LREAL''"
| "to_string String = ''STRING''"
| "to_string Byte = ''BYTE''"
| "to_string Word = ''WORD''"
| "to_string Dword = ''DWORD''"
| "to_string Lword = ''LWORD''"
| "to_string Time2 = ''TIME2''"
| "to_string AbbreviatedStructure = ''ABBREVIATED_STRUCTURE''"
| "to_string Structure = ''STRUCTURE''"
| "to_string Array = ''ARRAY''"
| "to_string (Unknown b) = ''Unknown('' @ hex (unat b) @ '')''"

fun is_valid_value :: "DataType \<Rightarrow> bool" where
  "is_valid_value Date = True"
| "is_valid_value Time = True"
| "is_valid_value DateAndTime = True"
| "is_valid_value TimeOfDay = True"
| "is_valid_value Bool = True"
| "is_valid_value Sint = True"
| "is_valid_value Int_t = True"
| "is_valid_value Dint = True"
| "is_valid_value Lint = True"
| "is_valid_value Usint = True"
| "is_valid_value Uint = True"
| "is_valid_value Udint = True"
| "is_valid_value Ulint = True"
| "is_valid_value Real = True"
| "is_valid_value Lreal = True"
| "is_valid_value String = True"
| "is_valid_value Byte = True"
| "is_valid_value Word = True"
| "is_valid_value Dword = True"
| "is_valid_value Lword = True"
| "is_valid_value Time2 = True"
| "is_valid_value AbbreviatedStructure = True"
| "is_valid_value Structure = True"
| "is_valid_value Array = True"
| "is_valid_value _ = False"

text \<open>
  \<open>ArrayInfo\<close> and \<open>VariableInfo\<close> are declared in the same missing header.
  \<open>get_array_size\<close> takes the dimensions as \<open>std::vector<size_t>\<close> and the element
  size as \<open>size_t\<close>, so sizes and dimensions are \<open>size_t\<close> values here: 64-bit words.
\<close>

type_synonym size_t = "64 word"

record ArrayInfo =
  element_type :: DataType
  element_size :: size_t
  dimensions :: "size_t list"
  start_indices :: "size_t list"

record VariableInfo =
  name :: bytes
  data_type :: DataType
  var_size :: size_t
  array_info :: "ArrayInfo option"

definition get_array_size :: "size_t list \<Rightarrow> DataType \<Rightarrow> size_t \<Rightarrow> size_t" where
  "get_array_size dims elem_type elem_size =
     (let dim_product = fold (\<lambda>dim p. p * dim) dims 1 in
      if elem_type = Bool then
        (let remainder = dim_product mod 16;
             full_bytes = dim_product div 8
         in if remainder \<ge> 8 then full_bytes + 1
            else if remainder > 0 then full_bytes + 2
            else full_bytes)
      else dim_product * elem_size)"

text \<open>
  \<open>variable_request_path\<close>: the vector is created zero-filled with \<open>2 + padded_length\<close>
  bytes, a serializer writes into it, and the vector is returned.
\<close>

definition variable_request_path :: "bytes \<Rightarrow> bytes" where
  "variable_request_path nm =
     (let padded_length = (length nm + length nm mod 2) mod size_t_limit;
          buf = replicate ((2 + padded_length) mod size_t_limit) 0;
          s0 = new_serializer buf;
          s1 = snd (ser_write s0 [0x91]);
          s2 = snd (serialize_integral Little host_endian s1 (of_nat (length nm) :: 8 word));
          s3 = snd (ser_write s2 nm);
          s4 = (if length nm mod 2 \<noteq> 0 then snd (ser_write s3 [0x00]) else s3)
      in s_buffer s4)"

section \<open>omcon.cpp: CIP responses and the request context\<close>

text \<open>
  Every \<open>throw\<close> of the source is a value of \<open>error\<close>. \<open>Transport_error\<close> stands for
  any failure of the PLC tag (\<open>send\<close>, \<open>get_data\<close>). \<open>Vector_index_out_of_range i\<close>
  marks an access \<open>names[i]\<close> beyond the end of the vector, which C++ leaves undefined.
\<close>

datatype error =
    Transport_error
  | Receive_buffer_too_small nat
  | Could_not_decode_CIP_response bytes
  | Received_error_status string
  | Could_not_decode_get_attribute_all_response
  | Could_not_encode_omron_request
  | Could_not_decode_all_instance_data nat
  | Vector_index_out_of_range nat

datatype warning =
    Unknown_type bytes byte
  | Array_of_unknown_type bytes byte
  | More_names_than_variables nat nat

record CipResponse =
  reply_service :: byte
  general_status :: byte
  extended_status :: bytes

text \<open>\<open>ser::read<uint8_t>\<close>, \<open>ser::read<uint16_t>\<close>, \<open>ser::read<uint32_t>\<close> on a little-endian deserializer.\<close>

abbreviation read_uint8 :: "FixedBufferDeserializer \<Rightarrow> 8 word \<times> FixedBufferDeserializer" where
  "read_uint8 d \<equiv> read_integral Little host_endian d"

abbreviation read_uint16 :: "FixedBufferDeserializer \<Rightarrow> 16 word \<times> FixedBufferDeserializer" where
  "read_uint16 d \<equiv> read_integral Little host_endian d"

abbreviation read_uint32 :: "FixedBufferDeserializer \<Rightarrow> 32 word \<times> FixedBufferDeserializer" where
  "read_uint32 d \<equiv> read_integral Little host_endian d"

text \<open>
  Modelled from the spec: \<open>CipResponse::decode\<close> is not among the sources. It consumes
  \<open>reply_service\<close>, one reserved byte, \<open>general_status\<close>, the extended status word count
  and twice that many raw bytes, and succeeds iff the decoder did not set its error flag.
\<close>

definition CipResponse_decode ::
  "FixedBufferDeserializer \<Rightarrow> bool \<times> CipResponse \<times> FixedBufferDeserializer" where
  "CipResponse_decode d0 =
     (let (service, d1) = read_uint8 d0;
          (ok, d2) = des_advance d1 1;
          (status, d3) = read_uint8 d2;
          (ext_status_word_count, d4) = read_uint8 d3;
          (ext, d5) = read_string d4 (2 * unat ext_status_word_count)
      in (\<not> d_has_error d5,
          \<lparr>reply_service = service, general_status = status, extended_status = ext\<rparr>,
          d5))"

definition general_status_message :: "byte \<Rightarrow> string" where
  "general_status_message status =
     (if status = 0x00 then ''Success''
      else if status = 0x01 then ''Connection Failure''
      else if status = 0x02 then ''Resource Unavailable''
      else if status = 0x03 then ''Invalid Parameter Value''
      else if status = 0x04 then ''Path Segment Error''
      else if status = 0x05 then ''Path Destination Error''
      else if status = 0x07 then ''Connection Lost''
      else if status = 0x09 then ''Invalid Attribute Value''
      else if status = 0x0C then ''Object State Conflict''
      else if status = 0x11 then ''Reply Data Too Large''
      else if status = 0x13 then ''Not Enough Data''
      else if status = 0x15 then ''Too Much Data''
      else if status = 0x1F then ''Vendor Specific Error''
      else if status = 0x20 then ''Invalid Parameter''
      else [])"

text \<open>\<open>read_int<T>(data)\<close>: \<open>memcpy\<close> of the first \<open>sizeof(T)\<close> bytes into a \<open>T\<close>.\<close>

definition read_int :: "endian \<Rightarrow> bytes \<Rightarrow> 'a::len word" where
  "read_int native data = object_of_bytes native (take (LENGTH('a) div 8) data)"

definition extended_status_message :: "endian \<Rightarrow> bytes \<Rightarrow> string" where
  "extended_status_message native ext_status =
     (if length ext_status \<noteq> 2 then []
      else
        (let status = (read_int native ext_status :: 16 word) in
         if status = 0x8010 then ''Downloading, starting up''
         else if status = 0x8011 then ''Tag memory error''
         else if status = 0x0102 then ''The read target is a variable I/O that cannot be read.''
         else if status = 0x2104 then ''The read target is a variable I/O that cannot be read.''
         else if status = 0x0104 then ''An address or size that exceeds the segment area is specified.''
         else if status = 0x1103 then ''An address or size that exceeds the segment area is specified.''
         else if status = 0x8001 then ''Internal Abnormality''
         else if status = 0x8007 then ''An inaccessible variable was specified''
         else if status = 0x8029
           then ''An area that cannot be accessed in bulk was specified in SimpleDataSegment.''
         else if status = 0x8031 then ''Internal error (memory allocation error)''
         else if status = 0x8009 then ''Segment Type Abnormal''
         else if status = 0x800F
           then ''Data length information in the request data is inconsistent''
         else if status = 0x8017 then ''Requesting more than one element for a single data item''
         else if status = 0x8018
           then ''Requesting 0 elements or exceeding the range of array data''
         else if status = 0x8021
           then ''A value other than 0 or 2 was specified in the AddInfo area.''
         else if status = 0x8022
           then ''The Data Type of the Request Service Data does not match the type of TAG information. The AddInfo Length of the Request Service Data is not 0.''
         else if status = 0x8023 then ''Internal error (invalid command format)''
         else if status = 0x8024 then ''Internal error (invalid command length)''
         else if status = 0x8025 then ''Internal error (invalid parameter)''
         else if status = 0x8027 then ''Internal error (parameter error)''
         else if status = 0x8028
           then ''A value outside the range was written to a variable with a subrange specified. An undefined value was written to an Enum type variable.''
         else []))"

definition extended_status_to_int :: "endian \<Rightarrow> bytes \<Rightarrow> 64 word option" where
  "extended_status_to_int native data =
     (if length data = 1 then Some (ucast (read_int native data :: 8 word))
      else if length data = 2 then Some (ucast (read_int native data :: 16 word))
      else if length data = 4 then Some (ucast (read_int native data :: 32 word))
      else if length data = 8 then Some (read_int native data :: 64 word)
      else None)"

text \<open>
  \<open>fmt::format("{:#x}", ext_status)\<close> with \<open>ext_status\<close> a \<open>std::optional<uint64_t>\<close>: the
  formatting library's formatter for optionals (\<open>fmt/std.h\<close>, which omcon.cpp includes)
  prints \<open>none\<close> for an empty optional and otherwise the value, formatted as asked,
  inside \<open>optional(\<close> and \<open>)\<close>.
\<close>

definition format_optional_hex_alt :: "64 word option \<Rightarrow> string" where
  "format_optional_hex_alt opt =
     (case opt of None \<Rightarrow> ''none'' | Some v \<Rightarrow> ''optional('' @ hex_alt (unat v) @ '')'')"

text \<open>
  The message that \<open>request\<close> builds when \<open>general_status\<close> is not 0. The two status
  integers are read with \<open>memcpy\<close>, in the byte order of the host.
\<close>

definition error_status_message :: "endian \<Rightarrow> CipResponse \<Rightarrow> string" where
  "error_status_message native cip_response =
     (let gen_message = general_status_message (general_status cip_response);
          ext_message = extended_status_message native (extended_status cip_response);
          ext_status = extended_status_to_int native (extended_status cip_response);
          message0 = ''Received error status in CIP response: ''
                       @ hex_alt (unat (general_status cip_response));
          message1 = (if extended_status cip_response \<noteq> []
                      then message0 @ '', extended: '' @ format_optional_hex_alt ext_status
                      else message0)
      in if gen_message \<noteq> [] \<or> ext_message \<noteq> [] then
           (let message2 = message1 @ '' - '';
                message3 = (if gen_message \<noteq> [] then message2 @ gen_message else message2)
            in if ext_message \<noteq> [] then message3 @ '', '' @ ext_message else message3)
         else message1)"

text \<open>
  The surroundings of a request context. The PLC tag is a function from the payloads sent
  so far (the latest last) to what \<open>get_data\<close> delivers for the latest one, or a transport
  failure. The sizes of the send and receive buffers and the byte values of the \<open>DataType\<close>
  enumerators are declared in the missing header and are parameters here.
\<close>

record Env =
  tag_get_data :: "bytes list \<Rightarrow> error + bytes"
  send_buffer_size :: nat
  recv_buffer_size :: nat
  cast_DataType :: "byte \<Rightarrow> DataType"

text \<open>
  The state of a \<open>RequestContext\<close>: the payloads handed to \<open>tag.send\<close> so far, the
  serializer over the send buffer, the deserializer, and the warnings logged so far.
\<close>

record RequestContext =
  sent :: "bytes list"
  serializer :: FixedBufferSerializer
  deserializer :: FixedBufferDeserializer
  warnings :: "warning list"

definition new_RequestContext :: "Env \<Rightarrow> RequestContext" where
  "new_RequestContext env =
     \<lparr>sent = [],
      serializer = new_serializer (replicate (send_buffer_size env) 0),
      deserializer = new_deserializer (replicate (recv_buffer_size env) 0),
      warnings = []\<rparr>"

definition request :: "Env \<Rightarrow> RequestContext \<Rightarrow> error + (CipResponse \<times> RequestContext)" where
  "request env rc =
     (let sent' = sent rc @ [serialized_buffer (serializer rc)] in
      case tag_get_data env sent' of
        Inl e \<Rightarrow> Inl e
      | Inr response_data \<Rightarrow>
          if length response_data > recv_buffer_size env
            then Inl (Receive_buffer_too_small (length response_data))
          else
            (case CipResponse_decode (new_deserializer response_data) of
               (ok, cip_response, d) \<Rightarrow>
                 if \<not> ok then Inl (Could_not_decode_CIP_response response_data)
                 else if general_status cip_response \<noteq> 0
                   then Inl (Received_error_status (error_status_message host_endian cip_response))
                 else Inr (cip_response, rc\<lparr>sent := sent', deserializer := d\<rparr>)))"

text \<open>
  Modelled from the spec: \<open>encode_get_attribute_all(ser, path)\<close> is declared in the
  missing header. It writes the service code \<open>0x01\<close>, the path length in words and the
  path bytes; like \<open>encode_omron_get_all_instances\<close> it starts from a reset serializer, so
  that the send buffer holds this request only.
\<close>

definition encode_get_attribute_all :: "FixedBufferSerializer \<Rightarrow> bytes \<Rightarrow> FixedBufferSerializer" where
  "encode_get_attribute_all ser path =
     (let s0 = ser_reset ser;
          s1 = snd (ser_write s0 [0x01]);
          s2 = snd (serialize_integral Little host_endian s1 (of_nat (length path div 2) :: 8 word))
      in snd (ser_write s2 path))"

fun read_uint32s :: "nat \<Rightarrow> FixedBufferDeserializer \<Rightarrow> size_t list \<times> FixedBufferDeserializer" where
  "read_uint32s 0 d = ([], d)"
| "read_uint32s (Suc n) d =
     (case read_uint32 d of (v, d') \<Rightarrow>
        (case read_uint32s n d' of (vs, d'') \<Rightarrow> (ucast v # vs, d'')))"

text \<open>The body of \<open>if (var.data_type == DataType::Array)\<close> in \<open>get_variable_info\<close>.\<close>

definition read_array_info ::
  "Env \<Rightarrow> VariableInfo \<Rightarrow> FixedBufferDeserializer \<Rightarrow> warning list
     \<Rightarrow> VariableInfo \<times> FixedBufferDeserializer \<times> warning list" where
  "read_array_info env var d0 w0 =
     (let (elem_byte, d1) = read_uint8 d0;
          elem_type = cast_DataType env elem_byte;
          w1 = (if \<not> is_valid_value elem_type
                then w0 @ [Array_of_unknown_type (name var) elem_byte] else w0);
          elem_size = var_size var;
          (num_dimensions, d2) = read_uint8 d1;
          (ok3, d3) = des_advance d2 1;
          (dims, d4) = read_uint32s (unat num_dimensions) d3;
          (ok5, d5) = des_advance d4 8;
          (bit_number, d6) = read_uint8 d5;
          (ok7, d7) = des_advance d6 3;
          (variable_type_instance_id, d8) = read_uint32 d7;
          (starts, d9) = read_uint32s (unat num_dimensions) d8;
          arr = \<lparr>element_type = elem_type, element_size = elem_size,
                 dimensions = dims, start_indices = starts\<rparr>
      in (var\<lparr>array_info := Some arr,
               var_size := get_array_size (dimensions arr) (element_type arr) (element_size arr)\<rparr>,
          d9, w1))"

definition get_variable_info ::
  "Env \<Rightarrow> RequestContext \<Rightarrow> bytes \<Rightarrow> error + (VariableInfo \<times> RequestContext)" where
  "get_variable_info env rc nm =
     (case request env
             (rc\<lparr>serializer := encode_get_attribute_all (serializer rc) (variable_request_path nm)\<rparr>) of
        Inl e \<Rightarrow> Inl e
      | Inr (cip_response, rc1) \<Rightarrow>
          (let (sz, d1) = read_uint32 (deserializer rc1);
               (type_byte, d2) = read_uint8 d1;
               var = \<lparr>name = nm, data_type = cast_DataType env type_byte,
                      var_size = ucast sz, array_info = None\<rparr>;
               w1 = (if \<not> is_valid_value (data_type var)
                     then warnings rc1 @ [Unknown_type nm type_byte] else warnings rc1);
               (var', d', w') = (if data_type var = Array then read_array_info env var d2 w1
                                 else (var, d2, w1))
           in if d_has_error d' then Inl Could_not_decode_get_attribute_all_response
              else Inr (var', rc1\<lparr>deserializer := d', warnings := w'\<rparr>)))"

section \<open>list_signals.cpp\<close>

text \<open>
  \<open>serialize_multi\<close> chains the writes with \<open>&&\<close>: a write is only attempted when the
  ones before it succeeded.
\<close>

definition address_request_path :: "8 word \<Rightarrow> 16 word \<Rightarrow> bytes" where
  "address_request_path class_id instance_id =
     (let s0 = new_serializer (replicate 6 0);
          (ok1, s1) = ser_write s0 [0x20];
          (ok2, s2) = (if ok1 then serialize_integral Little host_endian s1 class_id
                       else (False, s1));
          (ok3, s3) = (if ok2 then ser_write s2 [0x25, 0x00] else (False, s2));
          (ok4, s4) = (if ok3 then serialize_integral Little host_endian s3 instance_id
                       else (False, s3))
      in s_buffer s4)"

definition get_num_variables :: "Env \<Rightarrow> RequestContext \<Rightarrow> error + (nat \<times> RequestContext)" where
  "get_num_variables env rc =
     (case request env
             (rc\<lparr>serializer := encode_get_attribute_all (serializer rc) (address_request_path 0x6a 0)\<rparr>) of
        Inl e \<Rightarrow> Inl e
      | Inr (cip_response, rc1) \<Rightarrow>
          (let (ok, d1) = des_advance (deserializer rc1) 2;
               (num, d2) = read_uint16 d1
           in if d_has_error d2 then Inl Could_not_decode_get_attribute_all_response
              else Inr (unat num, rc1\<lparr>deserializer := d2\<rparr>)))"

datatype TagType = System | User

fun TagType_value :: "TagType \<Rightarrow> 16 word" where
  "TagType_value System = 1"
| "TagType_value User = 2"

definition encode_omron_get_all_instances ::
  "FixedBufferSerializer \<Rightarrow> 32 word \<Rightarrow> TagType \<Rightarrow> error + FixedBufferSerializer" where
  "encode_omron_get_all_instances ser next_instance_id tag_type =
     (let s0 = ser_reset ser;
          request_path = address_request_path 0x6a 0;
          s1 = snd (ser_write s0 [0x5F]);
          s2 = snd (serialize_integral Little host_endian s1
                      (of_nat (length request_path div 2) :: 8 word));
          s3 = snd (ser_write s2 request_path);
          s4 = snd (serialize_integral Little host_endian s3 next_instance_id);
          s5 = snd (ser_write s4 [0x20, 0x00, 0x00, 0x00]);
          s6 = snd (serialize_integral Little host_endian s5 (TagType_value tag_type))
      in if s_has_error s6 then Inl Could_not_encode_omron_request else Inr s6)"

record InstanceData =
  inst_id :: "32 word"
  inst_name :: bytes

text \<open>
  In \<open>instance_data_len > 2 + 4 + 1 + name_len\<close> and in the subtraction that follows, the
  16-bit and the 8-bit operand are promoted to \<open>int\<close>.
\<close>

definition decode_instance_data ::
  "FixedBufferDeserializer \<Rightarrow> InstanceData \<times> FixedBufferDeserializer" where
  "decode_instance_data deser =
     (let (ident, d1) = read_uint32 deser;
          (instance_data_len, d2) = read_uint16 d1;
          (ok3, d3) = des_advance d2 2;
          (ok4, d4) = des_advance d3 4;
          (name_len, d5) = read_uint8 d4;
          (nm, d6) = read_string d5 (unat name_len);
          d7 = (if uint instance_data_len > 2 + 4 + 1 + uint name_len
                then (let remaining = uint instance_data_len - 2 - 4 - 1 - uint name_len
                      in snd (des_advance d6 (nat remaining)))
                else d6)
      in (\<lparr>inst_id = ident, inst_name = nm\<rparr>, d7))"

text \<open>
  The inner loop of \<open>get_variables_fast\<close>, \<open>for (size_t i = 0; i < num_instances; ++i)\<close>:
  the first argument counts the iterations still to run, the second is \<open>i\<close>.
\<close>

fun decode_instances ::
  "nat \<Rightarrow> nat \<Rightarrow> FixedBufferDeserializer \<Rightarrow> bytes list \<Rightarrow> 32 word
     \<Rightarrow> error + (FixedBufferDeserializer \<times> bytes list \<times> 32 word)" where
  "decode_instances 0 i d names next_instance_id = Inr (d, names, next_instance_id)"
| "decode_instances (Suc k) i d names next_instance_id =
     (case decode_instance_data d of (instance_data, d') \<Rightarrow>
        if d_has_error d' then Inl (Could_not_decode_all_instance_data i)
        else decode_instances k (Suc i) d' (names @ [inst_name instance_data])
               (inst_id instance_data + 1))"

text \<open>
  The \<open>while (true)\<close> loop of \<open>get_variables_fast\<close> for one tag type. It need not
  terminate: \<open>None\<close> is the loop that never leaves.
\<close>

partial_function (option) get_all_instances ::
  "Env \<Rightarrow> TagType \<Rightarrow> 32 word \<Rightarrow> RequestContext \<Rightarrow> bytes list
     \<Rightarrow> (error + (bytes list \<times> RequestContext)) option" where
  "get_all_instances env tag_type next_instance_id rc names =
     (case encode_omron_get_all_instances (serializer rc) next_instance_id tag_type of
        Inl e \<Rightarrow> Some (Inl e)
      | Inr ser \<Rightarrow>
          (case request env (rc\<lparr>serializer := ser\<rparr>) of
             Inl e \<Rightarrow> Some (Inl e)
           | Inr (cip_response, rc1) \<Rightarrow>
               (case read_uint16 (deserializer rc1) of (num_instances, d1) \<Rightarrow>
                  (case des_advance d1 2 of (ok, d2) \<Rightarrow>
                     if num_instances = 0 then Some (Inr (names, rc1\<lparr>deserializer := d2\<rparr>))
                     else
                       (case decode_instances (unat num_instances) 0 d2 names next_instance_id of
                          Inl e \<Rightarrow> Some (Inl e)
                        | Inr (d3, names', next') \<Rightarrow>
                            get_all_instances env tag_type next' (rc1\<lparr>deserializer := d3\<rparr>) names')))))"

text \<open>The loop over \<open>tag_types\<close>; each tag type starts with \<open>next_instance_id = 1\<close>.\<close>

fun collect_names ::
  "Env \<Rightarrow> TagType list \<Rightarrow> RequestContext \<Rightarrow> bytes list
     \<Rightarrow> (error + (bytes list \<times> RequestContext)) option" where
  "collect_names env [] rc names = Some (Inr (names, rc))"
| "collect_names env (tag_type # tag_types) rc names =
     (case get_all_instances env tag_type 1 rc names of
        None \<Rightarrow> None
      | Some (Inl e) \<Rightarrow> Some (Inl e)
      | Some (Inr (names', rc')) \<Rightarrow> collect_names env tag_types rc' names')"

text \<open>
  The last loop of \<open>get_variables_fast\<close>, \<open>for (size_t i = 0; i < num; ++i)\<close>, which reads
  \<open>names[i]\<close>: the first argument counts the iterations still to run, the second is \<open>i\<close>.
\<close>

fun resolve_names ::
  "Env \<Rightarrow> nat \<Rightarrow> nat \<Rightarrow> bytes list \<Rightarrow> RequestContext \<Rightarrow> VariableInfo list
     \<Rightarrow> error + (VariableInfo list \<times> RequestContext)" where
  "resolve_names env 0 i names rc vars = Inr (vars, rc)"
| "resolve_names env (Suc k) i names rc vars =
     (if i < length names then
        (case get_variable_info env rc (names ! i) of
           Inl e \<Rightarrow> Inl e
         | Inr (var, rc') \<Rightarrow> resolve_names env k (Suc i) names rc' (vars @ [var]))
      else Inl (Vector_index_out_of_range i))"

definition get_variables_fast ::
  "Env \<Rightarrow> RequestContext \<Rightarrow> (error + (VariableInfo list \<times> RequestContext)) option" where
  "get_variables_fast env rc =
     (case get_num_variables env rc of
        Inl e \<Rightarrow> Some (Inl e)
      | Inr (num, rc1) \<Rightarrow>
          (case collect_names env [System, User] rc1 [] of
             None \<Rightarrow> None
           | Some (Inl e) \<Rightarrow> Some (Inl e)
           | Some (Inr (names, rc2)) \<Rightarrow>
               (let rc3 = (if length names > num
                           then rc2\<lparr>warnings := warnings rc2
                                  @ [More_names_than_variables (length names) num]\<rparr>
                           else rc2)
                in Some (resolve_names env num 0 names rc3 []))))"

definition include_signal_data_type_in_list :: "DataType \<Rightarrow> bool" where
  "include_signal_data_type_in_list dt =
     (if \<not> is_valid_value dt then False
      else if dt = Structure then False
      else if dt = AbbreviatedStructure then False
      else True)"

text \<open>One entry of the JSON array that \<open>list_signals\<close> returns.\<close>

record Symbol =
  symbol_name :: bytes
  symbol_type :: string
  arrayDimensions :: "(size_t \<times> size_t) list option"

text \<open>
  The body of the loop over \<open>vars\<close> in \<open>list_signals\<close>: \<open>None\<close> when the variable is
  skipped (\<open>continue\<close>), the entry pushed to the result otherwise.
\<close>

definition symbol_of :: "VariableInfo \<Rightarrow> Symbol option" where
  "symbol_of var =
     (if \<not> include_signal_data_type_in_list (data_type var) then None
      else
        (let symbol = \<lparr>symbol_name = name var, symbol_type = to_string (data_type var),
                         arrayDimensions = None\<rparr>
         in case array_info var of
              None \<Rightarrow> Some symbol
            | Some arr \<Rightarrow>
                if \<not> include_signal_data_type_in_list (element_type arr) then None
                else Some (symbol\<lparr>symbol_type := to_string (element_type arr),
                             arrayDimensions :=
                               Some (map (\<lambda>i. (start_indices arr ! i,
                                                 start_indices arr ! i + dimensions arr ! i))
                                       [0..<length (dimensions arr)])\<rparr>)))"

definition list_signals :: "Env \<Rightarrow> (error + Symbol list) option" where
  "list_signals env =
     (case get_variables_fast env (new_RequestContext env) of
        None \<Rightarrow> None
      | Some (Inl e) \<Rightarrow> Some (Inl e)
      | Some (Inr (vars, rc)) \<Rightarrow> Some (Inr (List.map_filter symbol_of vars)))"

section \<open>Scenarios\<close>

text \<open>
  Concrete surroundings on which the functions above are run. \<open>example_cast\<close> gives a few
  enumerators the type codes that CIP uses for them.
\<close>

definition example_cast :: "byte \<Rightarrow> DataType" where
  "example_cast b =
     (if b = 0xC1 then Bool else if b = 0xC3 then Int_t else if b = 0xC4 then Dint
      else if b = 0xA2 then Structure else if b = 0xA3 then Array else Unknown b)"

text \<open>
  Scenario S3: the info response for a one-dimensional Bool array of 17 elements that
  starts at index 0, behind a CIP envelope with status 0.
\<close>

definition s3_info_response :: bytes where
  "s3_info_response =
     [0x81, 0, 0, 0,
      1, 0, 0, 0, 0xA3, 0xC1, 1, 0,
      17, 0, 0, 0,
      0, 0, 0, 0, 0, 0, 0, 0, 0, 0, 0, 0, 0, 0, 0, 0,
      0, 0, 0, 0]"

definition s3_env :: Env where
  "s3_env = \<lparr>tag_get_data = (\<lambda>sent. Inr s3_info_response), send_buffer_size = 16,
              recv_buffer_size = 64, cast_DataType = example_cast\<rparr>"

text \<open>
  Scenario S5: a response with general status \<open>0x1F\<close> and the extended status bytes
  \<open>07 80\<close>.
\<close>

definition s5_response :: bytes where
  "s5_response = [0x81, 0, 0x1F, 1, 0x07, 0x80]"

definition s5_env :: Env where
  "s5_env = \<lparr>tag_get_data = (\<lambda>sent. Inr s5_response), send_buffer_size = 16,
              recv_buffer_size = 64, cast_DataType = example_cast\<rparr>"

section \<open>Properties of the serialization primitives\<close>

lemma size_t_sub:
  fixes a b m :: nat
  assumes "b \<le> a" and "a < m"
  shows "(a + m - b) mod m = a - b"
proof -
  from assms(1) have "a + m - b = (a - b) + m" by linarith
  then have "(a + m - b) mod m = (a - b) mod m" by (simp only: mod_add_self2)
  also from assms(2) have "\<dots> = a - b" by (intro mod_less) linarith
  finally show ?thesis .
qed

lemma can_write_error: "s_has_error s \<Longrightarrow> can_write s num = (False, s)"
  by (simp add: can_write_def)

lemma ser_call_error: "s_has_error s \<Longrightarrow> do_call s c = (False, s)"
  by (cases c) (simp_all add: ser_write_def ser_advance_def can_write_error)

lemma ser_calls_error:
  "s_has_error s \<Longrightarrow> ser_calls s cs = (replicate (length cs) False, s)"
  by (induction cs) (simp_all add: ser_call_error)

lemma ser_write_overflow:
  assumes "s_cursor s + length src < size_t_limit"
    and "length (s_buffer s) < s_cursor s + length src"
  shows "ser_write s src = (False, s\<lparr>s_has_error := True\<rparr>)"
proof (cases "s_has_error s")
  case True
  then have "s\<lparr>s_has_error := True\<rparr> = s" by simp
  with True show ?thesis by (simp add: ser_write_def can_write_error)
next
  case False
  with assms show ?thesis by (simp add: ser_write_def can_write_def)
qed

subsection \<open>Bytes of an integer\<close>

lemma length_nat_to_bytes [simp]: "length (nat_to_bytes k n) = k"
  by (induction k arbitrary: n) simp_all

lemma unat_byte_of_nat_mod: "unat (of_nat (n mod 256) :: byte) = n mod 256"
  by (simp add: unat_of_nat)

lemma bytes_to_nat_nat_to_bytes: "bytes_to_nat (nat_to_bytes k n) = n mod 256 ^ k"
proof (induction k arbitrary: n)
  case 0
  show ?case by simp
next
  case (Suc k)
  have "bytes_to_nat (nat_to_bytes (Suc k) n) = n mod 256 + 256 * (n div 256 mod 256 ^ k)"
    by (simp add: Suc unat_byte_of_nat_mod)
  also have "\<dots> = n mod (256 * 256 ^ k)"
    by (simp add: mod_mult2_eq)
  finally show ?case by simp
qed

lemma bytes_to_nat_less: "bytes_to_nat bs < 256 ^ length bs"
proof (induction bs)
  case Nil
  show ?case by simp
next
  case (Cons b bs)
  have "unat b < 256" using unsigned_less [of b, where ?'a = nat] by simp
  with Cons show ?case by simp
qed

lemma nat_to_bytes_bytes_to_nat: "nat_to_bytes (length bs) (bytes_to_nat bs) = bs"
proof (induction bs)
  case Nil
  show ?case by simp
next
  case (Cons b bs)
  have b: "unat b < 256" using unsigned_less [of b, where ?'a = nat] by simp
  then have "(unat b + 256 * bytes_to_nat bs) mod 256 = unat b"
    and "(unat b + 256 * bytes_to_nat bs) div 256 = bytes_to_nat bs"
    by simp_all
  with Cons show ?case by simp
qed


lemma pow256: "8 dvd n \<Longrightarrow> (256::nat) ^ (n div 8) = 2 ^ n"
proof -
  assume "8 dvd n"
  then obtain k where n: "n = 8 * k" by (elim dvdE)
  have "(256::nat) ^ k = (2 ^ 8) ^ k" by simp
  also have "\<dots> = 2 ^ (8 * k)" by (simp only: power_mult)
  finally show ?thesis by (simp add: n)
qed

lemma unat_less_pow256:
  fixes v :: "'a::len word"
  assumes "8 dvd LENGTH('a)"
  shows "unat v < 256 ^ sizeof v"
  using unsigned_less [of v, where ?'a = nat] pow256 [OF assms]
  by (simp add: sizeof_def)

lemma bytes_of_word_round_trip:
  fixes v :: "'a::len word"
  assumes "8 dvd LENGTH('a)"
  shows "of_nat (bytes_to_nat (nat_to_bytes (sizeof v) (unat v))) = v"
  using unat_less_pow256 [OF assms, of v]
  by (simp add: bytes_to_nat_nat_to_bytes)

lemma unat_of_bytes:
  fixes v :: "'a::len word"
  assumes "8 dvd LENGTH('a)" and "length bs = sizeof v"
  shows "unat (of_nat (bytes_to_nat bs) :: 'a word) = bytes_to_nat bs"
proof -
  have "bytes_to_nat bs < 256 ^ sizeof v"
    using bytes_to_nat_less [of bs] assms(2) by simp
  then have "bytes_to_nat bs < 2 ^ LENGTH('a)"
    using pow256 [OF assms(1)] by (simp add: sizeof_def)
  then show ?thesis by (simp add: unat_of_nat)
qed

lemma sizeof_bswap [simp]: "sizeof (bswap v) = sizeof v"
  by (simp add: sizeof_def)

lemma bytes_of_bswap:
  fixes v :: "'a::len word"
  assumes "8 dvd LENGTH('a)"
  shows "nat_to_bytes (sizeof v) (unat (bswap v)) = rev (nat_to_bytes (sizeof v) (unat v))"
proof -
  let ?bs = "rev (nat_to_bytes (sizeof v) (unat v))"
  have len: "length ?bs = sizeof v" by simp
  have "unat (bswap v) = bytes_to_nat ?bs"
    unfolding bswap_def using unat_of_bytes [OF assms len] .
  then have "nat_to_bytes (sizeof v) (unat (bswap v)) = nat_to_bytes (length ?bs) (bytes_to_nat ?bs)"
    by (simp only: len)
  then show ?thesis by (simp only: nat_to_bytes_bytes_to_nat)
qed

lemma rev_single: "length xs = Suc 0 \<Longrightarrow> rev xs = xs"
  by (cases xs) simp_all

text \<open>A little-endian serializer writes the bytes least significant first on any host.\<close>

lemma object_bytes_to_little:
  fixes v :: "'a::len word"
  assumes "8 dvd LENGTH('a)"
  shows "object_bytes native (to_endian Little native v) = nat_to_bytes (sizeof v) (unat v)"
proof (cases native)
  case Little
  then show ?thesis by (simp add: object_bytes_def to_endian_def)
next
  case Big
  show ?thesis
  proof (cases "sizeof v = 1")
    case True
    then have "rev (nat_to_bytes (sizeof v) (unat v)) = nat_to_bytes (sizeof v) (unat v)"
      by (intro rev_single) simp
    with Big True show ?thesis by (simp add: object_bytes_def to_endian_def)
  next
    case False
    with Big show ?thesis
      by (simp add: object_bytes_def to_endian_def bytes_of_bswap [OF assms])
  qed
qed

lemma serialize_integral_little:
  fixes v :: "'a::len word"
  assumes "8 dvd LENGTH('a)"
  shows "serialize_integral Little native s v = ser_write s (nat_to_bytes (sizeof v) (unat v))"
  by (simp add: serialize_integral_def object_bytes_to_little [OF assms])

lemma to_little_object_of_bytes:
  fixes v :: "'a::len word"
  assumes "8 dvd LENGTH('a)" and "length bs = sizeof v"
  shows "to_endian Little native (object_of_bytes native bs :: 'a word) = of_nat (bytes_to_nat bs)"
proof (cases native)
  case Little
  then show ?thesis by (simp add: object_of_bytes_def to_endian_def)
next
  case Big
  let ?w = "of_nat (bytes_to_nat (rev bs)) :: 'a word"
  have sz: "sizeof ?w = sizeof v" by (simp add: sizeof_def)
  show ?thesis
  proof (cases "sizeof v = 1")
    case True
    with assms(2) have "rev bs = bs" by (intro rev_single) simp
    with Big True sz show ?thesis by (simp add: object_of_bytes_def to_endian_def)
  next
    case False
    have len: "length (rev bs) = sizeof v" using assms(2) by simp
    have "unat ?w = bytes_to_nat (rev bs)"
      using unat_of_bytes [OF assms(1) len] .
    then have "nat_to_bytes (sizeof v) (unat ?w) = nat_to_bytes (length (rev bs)) (bytes_to_nat (rev bs))"
      by (simp only: len)
    then have "nat_to_bytes (sizeof v) (unat ?w) = rev bs"
      by (simp only: nat_to_bytes_bytes_to_nat)
    then have "bswap ?w = of_nat (bytes_to_nat bs)"
      by (simp add: bswap_def sz)
    with Big False sz show ?thesis by (simp add: object_of_bytes_def to_endian_def)
  qed
qed

lemma nat_to_bytes_zero: "nat_to_bytes k 0 = replicate k 0"
  by (induction k) simp_all

lemma object_bytes_zero: "object_bytes native (0 :: 'a::len word) = replicate (sizeof (0 :: 'a word)) 0"
  by (simp add: object_bytes_def nat_to_bytes_zero)

lemma des_read_length:
  "des_read d dst = (res, dst', d') \<Longrightarrow> length dst' = length dst"
  by (auto simp: des_read_def can_read_def split: if_splits)

lemma read_integral_little:
  assumes "8 dvd LENGTH('a)"
  shows "(read_integral Little native d :: 'a::len word \<times> FixedBufferDeserializer) =
     (case des_read d (replicate (sizeof (0 :: 'a word)) 0) of
        (res, dst, d') \<Rightarrow> (of_nat (bytes_to_nat dst), d'))"
proof -
  obtain res dst d' where r: "des_read d (replicate (sizeof (0 :: 'a word)) 0) = (res, dst, d')"
    by (cases "des_read d (replicate (sizeof (0 :: 'a word)) 0)")
  then have "length dst = sizeof (0 :: 'a word)"
    by (auto dest: des_read_length)
  from to_little_object_of_bytes [OF assms this] r show ?thesis
    by (simp add: read_integral_def deserialize_integral_def object_bytes_zero)
qed

subsection \<open>Sticky errors\<close>

text \<open>
  C4. A write of \<open>k\<close> bytes into a serializer with cursor \<open>c\<close> and \<open>r < k\<close> bytes remaining
  fails and sets the error flag; the cursor is still \<open>c\<close>; every later sequence of
  \<open>write\<close> and \<open>advance\<close> calls, of any sizes, fails call by call and leaves the cursor at
  \<open>c\<close> and the flag set; \<open>reset()\<close> puts the cursor to 0 and clears the flag. The
  serializer is in a state its operations can reach (cursor within the buffer) and the
  buffer and the written span are objects in memory (their sizes add up below
  \<open>size_t_limit\<close>).
\<close>

theorem bounded_serializer_sticky_error:
  assumes "s_cursor s \<le> length (s_buffer s)"
    and "length (s_buffer s) + length src < size_t_limit"
    and "get_remaining_bytes s < length src"
  shows "fst (ser_write s src) = False
       \<and> s_has_error (snd (ser_write s src))
       \<and> s_cursor (snd (ser_write s src)) = s_cursor s
       \<and> (\<forall>cs. fst (ser_calls (snd (ser_write s src)) cs) = replicate (length cs) False
             \<and> s_cursor (snd (ser_calls (snd (ser_write s src)) cs)) = s_cursor s
             \<and> s_has_error (snd (ser_calls (snd (ser_write s src)) cs)))
       \<and> s_cursor (ser_reset (snd (ser_write s src))) = 0
       \<and> \<not> s_has_error (ser_reset (snd (ser_write s src)))"
proof -
  from assms(1,2) have rem: "get_remaining_bytes s = length (s_buffer s) - s_cursor s"
    unfolding get_remaining_bytes_def by (intro size_t_sub) linarith+
  from rem assms(1,3) have over: "length (s_buffer s) < s_cursor s + length src"
    by linarith
  from assms(1,2) have fits: "s_cursor s + length src < size_t_limit"
    by linarith
  from fits over have w: "ser_write s src = (False, s\<lparr>s_has_error := True\<rparr>)"
    by (rule ser_write_overflow)
  show ?thesis
    unfolding w by (simp add: ser_calls_error ser_reset_def)
qed

theorem bounded_serializer_sticky_error_witness:
  "fst (ser_write (new_serializer [0, 0]) [1, 2, 3]) = False
   \<and> s_has_error (snd (ser_write (new_serializer [0, 0]) [1, 2, 3]))
   \<and> s_cursor (snd (ser_write (new_serializer [0, 0]) [1, 2, 3])) = 0
   \<and> fst (ser_calls (snd (ser_write (new_serializer [0, 0]) [1, 2, 3])) [Write [7], Advance 0])
       = [False, False]"
proof -
  let ?s = "new_serializer [0, 0]"
  have h1: "s_cursor ?s \<le> length (s_buffer ?s)"
    by (simp add: new_serializer_def)
  have h2: "length (s_buffer ?s) + length [1, 2, 3 :: byte] < size_t_limit"
    by (simp add: new_serializer_def size_t_limit_def)
  have h3: "get_remaining_bytes ?s < length [1, 2, 3 :: byte]"
    by (simp add: new_serializer_def get_remaining_bytes_def size_t_limit_def)
  note r = bounded_serializer_sticky_error [OF h1 h2 h3]
  from r have a: "fst (ser_write ?s [1, 2, 3]) = False"
    by (rule conjunct1)
  from r have b: "s_has_error (snd (ser_write ?s [1, 2, 3]))"
    by (elim conjE)
  from r have c: "s_cursor (snd (ser_write ?s [1, 2, 3])) = s_cursor ?s"
    by (elim conjE)
  from r have d: "fst (ser_calls (snd (ser_write ?s [1, 2, 3])) [Write [7], Advance 0])
      = replicate (length [Write [7], Advance 0]) False"
    by (elim conjE allE [where x = "[Write [7], Advance 0]"])
  from c have c': "s_cursor (snd (ser_write ?s [1, 2, 3])) = 0"
    by (simp add: new_serializer_def)
  from d have e: "fst (ser_calls (snd (ser_write ?s [1, 2, 3])) [Write [7], Advance 0])
      = [False, False]"
    by (simp add: numeral_2_eq_2)
  from a b c' e show ?thesis by (intro conjI)
qed

subsection \<open>Writing and reading integers\<close>

lemma ser_write_ok:
  assumes "\<not> s_has_error s" and "s_cursor s + length src \<le> length (s_buffer s)"
    and "length (s_buffer s) < size_t_limit"
  shows "ser_write s src =
     (True, s\<lparr>s_buffer := memcpy_at (s_buffer s) (s_cursor s) src,
               s_cursor := s_cursor s + length src\<rparr>)"
proof -
  from assms(2,3) have "(s_cursor s + length src) mod size_t_limit = s_cursor s + length src"
    by (intro mod_less) linarith
  with assms(1,2) show ?thesis by (simp add: ser_write_def can_write_def)
qed

lemma ser_write_has_error:
  assumes "\<not> s_has_error s" and "s_cursor s + length src < size_t_limit"
  shows "s_has_error (snd (ser_write s src)) \<longleftrightarrow> length (s_buffer s) < s_cursor s + length src"
proof -
  from assms(2) have "(s_cursor s + length src) mod size_t_limit = s_cursor s + length src"
    by (rule mod_less)
  with assms(1) show ?thesis by (simp add: ser_write_def can_write_def)
qed

lemma des_read_has_error:
  assumes "\<not> d_has_error d"
  shows "d_has_error (snd (snd (des_read d dst))) \<longleftrightarrow> length (remaining_buffer d) < length dst"
  using assms by (simp add: des_read_def can_read_def remaining_buffer_def)

lemma des_read_ok:
  assumes "\<not> d_has_error d" and "length dst \<le> length (remaining_buffer d)"
  shows "des_read d dst =
     (True, take (length dst) (remaining_buffer d), d\<lparr>d_cursor := d_cursor d + length dst\<rparr>)"
  using assms by (simp add: des_read_def can_read_def remaining_buffer_def)

lemma widths_dvd: "LENGTH('a::len) \<in> {8, 16, 32, 64} \<Longrightarrow> 8 dvd LENGTH('a)"
  by auto

lemma nat_to_bytes_numeral:
  "nat_to_bytes (numeral k) n = of_nat (n mod 256) # nat_to_bytes (pred_numeral k) (n div 256)"
proof -
  have "nat_to_bytes (numeral k) n = nat_to_bytes (Suc (pred_numeral k)) n"
    by (simp only: numeral_eq_Suc)
  then show ?thesis by (simp only: nat_to_bytes.simps)
qed

lemma sizeof_numerals:
  "sizeof (a :: 8 word) = 1" "sizeof (b :: 16 word) = 2"
  "sizeof (c :: 32 word) = 4" "sizeof (e :: 64 word) = 8"
  by (simp_all add: sizeof_def)

text \<open>
  C5. An integer \<open>x\<close> of 1, 2, 4 or 8 bytes is written by a little-endian serializer and
  read back by a little-endian deserializer, on a host of either byte order. The
  serializer's error flag stays clear exactly when it had at least \<open>sizeof x\<close> bytes
  remaining, the deserializer's exactly when its remaining buffer had at least \<open>sizeof x\<close>
  bytes, and when both had room and the deserializer reads the bytes the serializer wrote,
  the value read is \<open>x\<close>.
\<close>

theorem integral_round_trip:
  fixes x :: "'a::len word"
  assumes width: "LENGTH('a) \<in> {8, 16, 32, 64}"
    and s_ok: "\<not> s_has_error s" "s_cursor s \<le> length (s_buffer s)"
      "length (s_buffer s) + sizeof x < size_t_limit"
    and d_ok: "\<not> d_has_error d"
  shows "(\<not> s_has_error (snd (serialize_integral Little native s x))
           \<longleftrightarrow> sizeof x \<le> get_remaining_bytes s)
       \<and> (\<not> d_has_error (snd (read_integral Little native d :: 'a word \<times> FixedBufferDeserializer))
           \<longleftrightarrow> sizeof x \<le> length (remaining_buffer d))
       \<and> (sizeof x \<le> get_remaining_bytes s \<and> sizeof x \<le> length (remaining_buffer d)
           \<and> take (sizeof x) (remaining_buffer d)
               = take (sizeof x) (drop (s_cursor s) (s_buffer (snd (serialize_integral Little native s x))))
           \<longrightarrow> fst (read_integral Little native d) = x)"
proof -
  let ?w = "sizeof x"
  let ?bs = "nat_to_bytes ?w (unat x)"
  have dvd: "8 dvd LENGTH('a)" using width by (rule widths_dvd)
  have sz0: "sizeof (0 :: 'a word) = ?w" by (simp add: sizeof_def)
  have ser: "serialize_integral Little native s x = ser_write s ?bs"
    by (rule serialize_integral_little [OF dvd])
  have rd: "(read_integral Little native d :: 'a word \<times> FixedBufferDeserializer) =
     (case des_read d (replicate ?w 0) of (res, dst, d') \<Rightarrow> (of_nat (bytes_to_nat dst), d'))"
    using read_integral_little [OF dvd, of native d] by (simp only: sz0)
  from s_ok(2,3) have rem: "get_remaining_bytes s = length (s_buffer s) - s_cursor s"
    unfolding get_remaining_bytes_def by (intro size_t_sub) linarith+
  from s_ok(2,3) have fits: "s_cursor s + length ?bs < size_t_limit" by simp
  have A: "\<not> s_has_error (snd (serialize_integral Little native s x)) \<longleftrightarrow> ?w \<le> get_remaining_bytes s"
    using ser_write_has_error [OF s_ok(1) fits] s_ok(2) by (simp add: ser rem) linarith
  have B: "\<not> d_has_error (snd (read_integral Little native d :: 'a word \<times> FixedBufferDeserializer))
       \<longleftrightarrow> ?w \<le> length (remaining_buffer d)"
    using des_read_has_error [OF d_ok, of "replicate ?w 0"]
    by (auto simp: rd split: prod.splits)
  have C: "fst (read_integral Little native d) = x"
    if room: "?w \<le> get_remaining_bytes s" "?w \<le> length (remaining_buffer d)"
      and same: "take ?w (remaining_buffer d)
        = take ?w (drop (s_cursor s) (s_buffer (snd (serialize_integral Little native s x))))"
  proof -
    from room(1) rem s_ok(2) have "s_cursor s + length ?bs \<le> length (s_buffer s)" by simp
    moreover from s_ok(3) have "length (s_buffer s) < size_t_limit" by simp
    ultimately have "ser_write s ?bs =
       (True, s\<lparr>s_buffer := memcpy_at (s_buffer s) (s_cursor s) ?bs,
                 s_cursor := s_cursor s + length ?bs\<rparr>)"
      by (rule ser_write_ok [OF s_ok(1)])
    then have "s_buffer (snd (serialize_integral Little native s x))
        = take (s_cursor s) (s_buffer s) @ ?bs @ drop (s_cursor s + ?w) (s_buffer s)"
      by (simp add: ser memcpy_at_def)
    with s_ok(2) have "take ?w (drop (s_cursor s) (s_buffer (snd (serialize_integral Little native s x)))) = ?bs"
      by simp
    with same have got: "take ?w (remaining_buffer d) = ?bs" by simp
    from room(2) have "des_read d (replicate ?w 0) =
        (True, take ?w (remaining_buffer d), d\<lparr>d_cursor := d_cursor d + ?w\<rparr>)"
      using des_read_ok [OF d_ok, of "replicate ?w 0"] by simp
    with got have "fst (read_integral Little native d :: 'a word \<times> FixedBufferDeserializer)
        = of_nat (bytes_to_nat ?bs)"
      by (simp add: rd)
    then show ?thesis by (simp add: bytes_of_word_round_trip [OF dvd])
  qed
  from A B C show ?thesis by blast
qed

theorem integral_round_trip_witness:
  "fst (read_integral Little Big (new_deserializer [0x78, 0x56, 0x34, 0x12])) = (0x12345678 :: 32 word)
   \<and> \<not> s_has_error (snd (serialize_integral Little Big (new_serializer [0, 0, 0, 0]) (0x12345678 :: 32 word)))
   \<and> \<not> d_has_error (snd (read_integral Little Big (new_deserializer [0x78, 0x56, 0x34, 0x12])
         :: 32 word \<times> FixedBufferDeserializer))"
proof -
  let ?x = "0x12345678 :: 32 word"
  let ?s = "new_serializer [0, 0, 0, 0]"
  let ?d = "new_deserializer [0x78, 0x56, 0x34, 0x12]"
  have h1: "LENGTH(32) \<in> {8, 16, 32, 64 :: nat}" by simp
  have h2: "\<not> s_has_error ?s" by (simp add: new_serializer_def)
  have h3: "s_cursor ?s \<le> length (s_buffer ?s)" by (simp add: new_serializer_def)
  have h4: "length (s_buffer ?s) + sizeof ?x < size_t_limit"
    by (simp add: new_serializer_def sizeof_numerals size_t_limit_def)
  have h5: "\<not> d_has_error ?d" by (simp add: new_deserializer_def)
  note r = integral_round_trip [where x = ?x and s = ?s and d = ?d and native = Big, OF h1 h2 h3 h4 h5]
  have p1: "sizeof ?x \<le> get_remaining_bytes ?s"
    by (simp add: new_serializer_def get_remaining_bytes_def sizeof_numerals size_t_limit_def)
  have p2: "sizeof ?x \<le> length (remaining_buffer ?d)"
    by (simp add: new_deserializer_def remaining_buffer_def sizeof_numerals)
  have "8 dvd LENGTH(32)" by simp
  then have "serialize_integral Little Big ?s ?x = ser_write ?s (nat_to_bytes (sizeof ?x) (unat ?x))"
    by (rule serialize_integral_little)
  then have p3: "take (sizeof ?x) (remaining_buffer ?d)
      = take (sizeof ?x) (drop (s_cursor ?s) (s_buffer (snd (serialize_integral Little Big ?s ?x))))"
    by (simp add: new_serializer_def new_deserializer_def remaining_buffer_def sizeof_numerals
        nat_to_bytes_numeral ser_write_ok memcpy_at_def size_t_limit_def)
  from r have a: "\<not> s_has_error (snd (serialize_integral Little Big ?s ?x))
      \<longleftrightarrow> sizeof ?x \<le> get_remaining_bytes ?s"
    by (rule conjunct1)
  from r have b: "\<not> d_has_error (snd (read_integral Little Big ?d :: 32 word \<times> FixedBufferDeserializer))
      \<longleftrightarrow> sizeof ?x \<le> length (remaining_buffer ?d)"
    by (elim conjE)
  from r have c: "sizeof ?x \<le> get_remaining_bytes ?s \<and> sizeof ?x \<le> length (remaining_buffer ?d)
           \<and> take (sizeof ?x) (remaining_buffer ?d)
               = take (sizeof ?x) (drop (s_cursor ?s) (s_buffer (snd (serialize_integral Little Big ?s ?x))))
           \<longrightarrow> fst (read_integral Little Big ?d) = ?x"
    by (elim conjE)
  from c p1 p2 p3 have "fst (read_integral Little Big ?d) = ?x" by (elim impE) (intro conjI)
  moreover from a p1 have "\<not> s_has_error (snd (serialize_integral Little Big ?s ?x))"
    by (rule iffD2)
  moreover from b p2 have "\<not> d_has_error (snd (read_integral Little Big ?d :: 32 word \<times> FixedBufferDeserializer))"
    by (rule iffD2)
  ultimately show ?thesis by (intro conjI)
qed

section \<open>omcon.cpp: get_array_size\<close>

lemma fold_mult_prod_list:
  fixes a :: "'a::comm_monoid_mult"
  shows "fold (\<lambda>dim p. p * dim) dims a = a * prod_list dims"
  by (induction dims arbitrary: a) (simp_all add: mult.assoc)

lemma get_array_size_prod:
  "get_array_size dims et es =
     (if et = Bool then
        (if prod_list dims mod 16 \<ge> 8 then prod_list dims div 8 + 1
         else if prod_list dims mod 16 > 0 then prod_list dims div 8 + 2
         else prod_list dims div 8)
      else prod_list dims * es)"
  by (simp add: get_array_size_def fold_mult_prod_list Let_def)

text \<open>
  C1. The byte size of an array. With \<open>P\<close> the product of the dimensions, computed in
  \<open>size_t\<close> as the code does: a Bool array takes \<open>P div 8\<close> bytes when \<open>P mod 16 = 0\<close>,
  \<open>P div 8 + 1\<close> when \<open>8 \<le> P mod 16 < 16\<close> and \<open>P div 8 + 2\<close> when \<open>0 < P mod 16 < 8\<close>;
  an array of any other element type takes \<open>P * element_size\<close>. For the dimensions
  \<open>[17]\<close> and Bool the result is 4.
\<close>

theorem get_array_size_rule:
  fixes dims :: "size_t list"
  shows "(et = Bool \<and> prod_list dims mod 16 = 0
            \<longrightarrow> get_array_size dims et es = prod_list dims div 8)
       \<and> (et = Bool \<and> 8 \<le> prod_list dims mod 16 \<and> prod_list dims mod 16 < 16
            \<longrightarrow> get_array_size dims et es = prod_list dims div 8 + 1)
       \<and> (et = Bool \<and> 0 < prod_list dims mod 16 \<and> prod_list dims mod 16 < 8
            \<longrightarrow> get_array_size dims et es = prod_list dims div 8 + 2)
       \<and> (et \<noteq> Bool \<longrightarrow> get_array_size dims et es = prod_list dims * es)
       \<and> get_array_size [17] Bool es = 4"
proof (intro conjI impI)
  assume "et = Bool \<and> prod_list dims mod 16 = 0"
  then show "get_array_size dims et es = prod_list dims div 8"
    by (simp add: get_array_size_prod)
next
  assume "et = Bool \<and> 8 \<le> prod_list dims mod 16 \<and> prod_list dims mod 16 < 16"
  then show "get_array_size dims et es = prod_list dims div 8 + 1"
    by (simp add: get_array_size_prod)
next
  assume "et = Bool \<and> 0 < prod_list dims mod 16 \<and> prod_list dims mod 16 < 8"
  then show "get_array_size dims et es = prod_list dims div 8 + 2"
    by (auto simp: get_array_size_prod)
next
  assume "et \<noteq> Bool"
  then show "get_array_size dims et es = prod_list dims * es"
    by (simp add: get_array_size_prod)
next
  have "\<not> (8::size_t) \<le> 1" by (simp add: word_le_nat_alt)
  then show "get_array_size [17] Bool es = 4"
    by (simp add: get_array_size_def)
qed

theorem get_array_size_rule_witness:
  "get_array_size [17] Bool 1 = 17 div 8 + 2
   \<and> get_array_size [16] Bool 1 = 16 div 8
   \<and> get_array_size [9] Bool 1 = 9 div 8 + 1
   \<and> get_array_size [2, 3] Dint 4 = 2 * 3 * 4"
proof -
  have a: "Bool = Bool \<and> 0 < prod_list [17 :: size_t] mod 16 \<and> prod_list [17 :: size_t] mod 16 < 8"
    by simp
  have b: "Bool = Bool \<and> prod_list [16 :: size_t] mod 16 = 0"
    by simp
  have c: "Bool = Bool \<and> 8 \<le> prod_list [9 :: size_t] mod 16 \<and> prod_list [9 :: size_t] mod 16 < 16"
    by simp
  have d: "Dint \<noteq> Bool" by simp
  have "get_array_size [17] Bool 1 = prod_list [17] div 8 + 2"
    by (rule get_array_size_rule [of Bool "[17]" 1,
          THEN conjunct2, THEN conjunct2, THEN conjunct1, THEN mp, OF a])
  moreover have "get_array_size [16] Bool 1 = prod_list [16] div 8"
    by (rule get_array_size_rule [of Bool "[16]" 1, THEN conjunct1, THEN mp, OF b])
  moreover have "get_array_size [9] Bool 1 = prod_list [9] div 8 + 1"
    by (rule get_array_size_rule [of Bool "[9]" 1,
          THEN conjunct2, THEN conjunct1, THEN mp, OF c])
  moreover have "get_array_size [2, 3] Dint 4 = prod_list [2, 3] * 4"
    by (rule get_array_size_rule [of Dint "[2, 3]" 4,
          THEN conjunct2, THEN conjunct2, THEN conjunct2, THEN conjunct1, THEN mp, OF d])
  ultimately show ?thesis by simp
qed

section \<open>omcon.cpp: variable_request_path\<close>

lemma ser_write_append:
  assumes "\<not> s_has_error s" and "s_buffer s = pre @ room" and "s_cursor s = length pre"
    and "length src \<le> length room" and "length (s_buffer s) < size_t_limit"
  shows "ser_write s src =
     (True, \<lparr>s_buffer = pre @ src @ drop (length src) room,
             s_cursor = length pre + length src, s_has_error = False\<rparr>)"
proof -
  from assms(2,3,4) have fit: "s_cursor s + length src \<le> length (s_buffer s)" by simp
  have "memcpy_at (pre @ room) (length pre) src = pre @ src @ drop (length src) room"
    by (simp add: memcpy_at_def)
  with ser_write_ok [OF assms(1) fit assms(5)] assms(1,2,3) show ?thesis
    by simp
qed

lemma nat_to_bytes_byte: "nat_to_bytes (sizeof b) (unat b) = [b]" for b :: byte
proof -
  have "unat b mod 256 = unat b" using unsigned_less [of b, where ?'a = nat] by simp
  then show ?thesis by (simp add: sizeof_def)
qed

lemma serialize_byte:
  "serialize_integral Little native s (b :: byte) = ser_write s [b]"
proof -
  have "8 dvd LENGTH(8)" by simp
  from serialize_integral_little [OF this, of native s b] show ?thesis
    by (simp only: nat_to_bytes_byte)
qed

text \<open>
  C6. For a name of fewer than 256 bytes \<open>variable_request_path\<close> returns the bytes
  \<open>0x91\<close>, the name length, the name, and one \<open>0x00\<close> byte exactly when the name
  length is odd; the length of the path is even.
\<close>

theorem variable_request_path_bytes:
  assumes "length nm < 256"
  shows "variable_request_path nm
           = [0x91, of_nat (length nm)] @ nm @ (if odd (length nm) then [0x00] else [])
       \<and> even (length (variable_request_path nm))"
proof -
  let ?n = "length nm"
  let ?pad = "?n mod 2"
  have lim: "2 + (?n + ?pad) < size_t_limit"
    using assms by (simp add: size_t_limit_def)
  then have m1: "(?n + ?pad) mod size_t_limit = ?n + ?pad"
    and m2: "(2 + (?n + ?pad)) mod size_t_limit = 2 + (?n + ?pad)"
    by simp_all
  let ?buf = "replicate (2 + (?n + ?pad)) (0 :: byte)"
  let ?s0 = "new_serializer ?buf"
  have w1: "ser_write ?s0 [0x91] =
      (True, \<lparr>s_buffer = [] @ [0x91] @ drop (length [0x91 :: byte]) ?buf,
              s_cursor = length ([] :: bytes) + length [0x91 :: byte], s_has_error = False\<rparr>)"
    using lim by (intro ser_write_append) (simp_all add: new_serializer_def)
  let ?s1 = "\<lparr>s_buffer = [0x91] @ replicate (1 + (?n + ?pad)) (0 :: byte),
              s_cursor = 1, s_has_error = False\<rparr>"
  from w1 have s1: "snd (ser_write ?s0 [0x91]) = ?s1" by simp
  let ?len = "of_nat ?n :: byte"
  have w2: "ser_write ?s1 [?len] =
      (True, \<lparr>s_buffer = [0x91] @ [?len] @ drop (length [?len]) (replicate (1 + (?n + ?pad)) (0 :: byte)),
              s_cursor = length [0x91 :: byte] + length [?len], s_has_error = False\<rparr>)"
    using lim by (intro ser_write_append) simp_all
  let ?s2 = "\<lparr>s_buffer = [0x91, ?len] @ replicate (?n + ?pad) (0 :: byte),
              s_cursor = 2, s_has_error = False\<rparr>"
  from w2 have s2: "snd (serialize_integral Little host_endian ?s1 ?len) = ?s2"
    by (simp add: serialize_byte)
  have w3: "ser_write ?s2 nm =
      (True, \<lparr>s_buffer = [0x91, ?len] @ nm @ drop (length nm) (replicate (?n + ?pad) (0 :: byte)),
              s_cursor = length [0x91, ?len] + length nm, s_has_error = False\<rparr>)"
    using lim by (intro ser_write_append) simp_all
  let ?s3 = "\<lparr>s_buffer = [0x91, ?len] @ nm @ replicate ?pad (0 :: byte),
              s_cursor = 2 + ?n, s_has_error = False\<rparr>"
  from w3 have s3: "snd (ser_write ?s2 nm) = ?s3" by simp
  have s4: "snd (ser_write ?s3 [0x00]) =
      \<lparr>s_buffer = [0x91, ?len] @ nm @ [0x00], s_cursor = 3 + ?n, s_has_error = False\<rparr>"
    if odd: "?pad \<noteq> 0"
  proof -
    from odd have p1: "?pad = 1" by presburger
    have "ser_write ?s3 [0x00] =
      (True, \<lparr>s_buffer = ([0x91, ?len] @ nm) @ [0x00] @ drop (length [0x00 :: byte]) (replicate ?pad (0 :: byte)),
              s_cursor = length ([0x91, ?len] @ nm) + length [0x00 :: byte], s_has_error = False\<rparr>)"
      using lim p1 by (intro ser_write_append) simp_all
    with p1 show ?thesis by simp
  qed
  have core: "variable_request_path nm
      = s_buffer (if ?pad \<noteq> 0 then snd (ser_write ?s3 [0x00]) else ?s3)"
    unfolding variable_request_path_def Let_def m1 m2 s1 s2 s3 ..
  have path: "variable_request_path nm
      = [0x91, ?len] @ nm @ (if odd ?n then [0x00] else [])"
  proof (cases "?pad \<noteq> 0")
    case True
    then have odd: "odd ?n" by presburger
    have "variable_request_path nm = s_buffer (snd (ser_write ?s3 [0x00]))"
      unfolding core if_P [OF True] ..
    also have "\<dots> = [0x91, ?len] @ nm @ [0x00]"
      by (simp only: s4 [OF True] FixedBufferSerializer.simps)
    finally show ?thesis using odd by simp
  next
    case False
    then have "even ?n" by presburger
    with False show ?thesis
      unfolding core by simp
  qed
  then have "even (length (variable_request_path nm))" by simp
  with path show ?thesis by simp
qed

theorem variable_request_path_bytes_witness:
  "variable_request_path [0x42, 0x61, 0x64] = [0x91, 3, 0x42, 0x61, 0x64, 0x00]
   \<and> variable_request_path [0x41, 0x42] = [0x91, 2, 0x41, 0x42]"
proof -
  have a: "length [0x42, 0x61, 0x64 :: byte] < 256" by simp
  have b: "length [0x41, 0x42 :: byte] < 256" by simp
  from variable_request_path_bytes [OF a] variable_request_path_bytes [OF b]
  show ?thesis by simp
qed

section \<open>list_signals.cpp: the catalog filter\<close>





section \<open>omcon.cpp: get_variable_info\<close>

lemma length_read_uint32s: "length (fst (read_uint32s n d)) = n"
proof (induction n arbitrary: d)
  case 0
  show ?case by simp
next
  case (Suc n)
  obtain v d' where r: "read_uint32 d = (v, d')" by (cases "read_uint32 d")
  obtain vs d'' where rs: "read_uint32s n d' = (vs, d'')" by (cases "read_uint32s n d'")
  from Suc [of d'] rs have "length vs = n" by simp
  then show ?case by (simp add: r rs)
qed

lemma read_array_info_result:
  assumes "read_array_info env var d0 w0 = (var', d', w')"
  shows "\<exists>arr. array_info var' = Some arr
           \<and> data_type var' = data_type var
           \<and> element_size arr = var_size var
           \<and> length (dimensions arr) = length (start_indices arr)
           \<and> var_size var' = get_array_size (dimensions arr) (element_type arr) (element_size arr)"
proof -
  obtain eb d1 where r1: "read_uint8 d0 = (eb, d1)" by (cases "read_uint8 d0")
  obtain nd d2 where r2: "read_uint8 d1 = (nd, d2)" by (cases "read_uint8 d1")
  obtain ok3 d3 where r3: "des_advance d2 1 = (ok3, d3)" by (cases "des_advance d2 1")
  obtain dims d4 where r4: "read_uint32s (unat nd) d3 = (dims, d4)"
    by (cases "read_uint32s (unat nd) d3")
  obtain ok5 d5 where r5: "des_advance d4 8 = (ok5, d5)" by (cases "des_advance d4 8")
  obtain bn d6 where r6: "read_uint8 d5 = (bn, d6)" by (cases "read_uint8 d5")
  obtain ok7 d7 where r7: "des_advance d6 3 = (ok7, d7)" by (cases "des_advance d6 3")
  obtain vt d8 where r8: "read_uint32 d7 = (vt, d8)" by (cases "read_uint32 d7")
  obtain starts d9 where r9: "read_uint32s (unat nd) d8 = (starts, d9)"
    by (cases "read_uint32s (unat nd) d8")
  have ld: "length dims = unat nd"
    using length_read_uint32s [of "unat nd" d3] by (simp add: r4)
  have ls: "length starts = unat nd"
    using length_read_uint32s [of "unat nd" d8] by (simp add: r9)
  from assms have "var' = var\<lparr>array_info := Some \<lparr>element_type = cast_DataType env eb,
        element_size = var_size var, dimensions = dims, start_indices = starts\<rparr>,
      var_size := get_array_size dims (cast_DataType env eb) (var_size var)\<rparr>"
    by (simp add: read_array_info_def r1 r2 r3 r4 r5 r6 r7 r8 r9 Let_def del: One_nat_def)
  with ld ls show ?thesis by simp
qed

subsection \<open>Running the decoder on concrete buffers\<close>

lemma des_read_eval:
  "des_read \<lparr>d_buffer = buf, d_cursor = c, d_has_error = e\<rparr> dst =
     (if e then (False, dst, \<lparr>d_buffer = buf, d_cursor = c, d_has_error = True\<rparr>)
      else if length buf - c < length dst
        then (False, dst, \<lparr>d_buffer = buf, d_cursor = c, d_has_error = True\<rparr>)
      else (True, take (length dst) (drop c buf),
            \<lparr>d_buffer = buf, d_cursor = c + length dst, d_has_error = False\<rparr>))"
  by (simp add: des_read_def can_read_def)

lemma des_advance_eval:
  "des_advance \<lparr>d_buffer = buf, d_cursor = c, d_has_error = e\<rparr> off =
     (if e then (False, \<lparr>d_buffer = buf, d_cursor = c, d_has_error = True\<rparr>)
      else if length buf - c < off
        then (False, \<lparr>d_buffer = buf, d_cursor = c, d_has_error = True\<rparr>)
      else (True, \<lparr>d_buffer = buf, d_cursor = c + off, d_has_error = False\<rparr>))"
  by (simp add: des_advance_def can_read_def)

lemma read_integral_eval:
  assumes "8 dvd LENGTH('a)"
  shows "(read_integral Little native \<lparr>d_buffer = buf, d_cursor = c, d_has_error = e\<rparr>
            :: 'a::len word \<times> FixedBufferDeserializer) =
     (if e \<or> length buf - c < LENGTH('a) div 8
        then (0, \<lparr>d_buffer = buf, d_cursor = c, d_has_error = True\<rparr>)
      else (of_nat (bytes_to_nat (take (LENGTH('a) div 8) (drop c buf))),
            \<lparr>d_buffer = buf, d_cursor = c + LENGTH('a) div 8, d_has_error = False\<rparr>))"
proof -
  have z: "bytes_to_nat (replicate k 0) = 0" for k by (induction k) simp_all
  show ?thesis
    by (simp add: read_integral_little [OF assms] des_read_eval sizeof_def z)
qed

lemma read_uint8_eval:
  "read_uint8 \<lparr>d_buffer = buf, d_cursor = c, d_has_error = e\<rparr> =
     (if e \<or> length buf - c < 1
        then (0, \<lparr>d_buffer = buf, d_cursor = c, d_has_error = True\<rparr>)
      else (of_nat (bytes_to_nat (take 1 (drop c buf))),
            \<lparr>d_buffer = buf, d_cursor = c + 1, d_has_error = False\<rparr>))"
  using read_integral_eval [where ?'a = 8, of host_endian buf c e] by simp

lemma read_uint16_eval:
  "read_uint16 \<lparr>d_buffer = buf, d_cursor = c, d_has_error = e\<rparr> =
     (if e \<or> length buf - c < 2
        then (0, \<lparr>d_buffer = buf, d_cursor = c, d_has_error = True\<rparr>)
      else (of_nat (bytes_to_nat (take 2 (drop c buf))),
            \<lparr>d_buffer = buf, d_cursor = c + 2, d_has_error = False\<rparr>))"
  using read_integral_eval [where ?'a = 16, of host_endian buf c e] by simp

lemma read_uint32_eval:
  "read_uint32 \<lparr>d_buffer = buf, d_cursor = c, d_has_error = e\<rparr> =
     (if e \<or> length buf - c < 4
        then (0, \<lparr>d_buffer = buf, d_cursor = c, d_has_error = True\<rparr>)
      else (of_nat (bytes_to_nat (take 4 (drop c buf))),
            \<lparr>d_buffer = buf, d_cursor = c + 4, d_has_error = False\<rparr>))"
  using read_integral_eval [where ?'a = 32, of host_endian buf c e] by simp

lemma read_string_eval:
  "read_string \<lparr>d_buffer = buf, d_cursor = c, d_has_error = e\<rparr> len =
     (if e \<or> length buf - c < len
        then (replicate len 0, \<lparr>d_buffer = buf, d_cursor = c, d_has_error = True\<rparr>)
      else (take len (drop c buf),
            \<lparr>d_buffer = buf, d_cursor = c + len, d_has_error = False\<rparr>))"
  by (simp add: read_string_def des_read_eval)

lemmas des_eval = des_advance_eval read_uint8_eval read_uint16_eval read_uint32_eval read_string_eval

lemma cip_ok: "CipResponse_decode (new_deserializer s3_info_response) =
   (True, \<lparr>reply_service = 0x81, general_status = 0, extended_status = []\<rparr>,
    \<lparr>d_buffer = s3_info_response, d_cursor = 4, d_has_error = False\<rparr>)"
  by (simp add: CipResponse_decode_def new_deserializer_def s3_info_response_def des_eval)


lemma s3_eval:
  "map_sum id fst (get_variable_info s3_env (new_RequestContext s3_env) [0x42, 0x69, 0x74, 0x73]) =
     Inr \<lparr>name = [0x42, 0x69, 0x74, 0x73], data_type = Array, var_size = 4,
          array_info = Some \<lparr>element_type = Bool, element_size = 1,
                              dimensions = [17], start_indices = [0]\<rparr>\<rparr>"
  by (simp add: get_variable_info_def request_def s3_env_def Let_def des_eval
      CipResponse_decode_def new_deserializer_def s3_info_response_def
      read_array_info_def example_cast_def get_array_size_def word_le_nat_alt)

text \<open>
  C9. Every \<open>VariableInfo\<close> that \<open>get_variable_info\<close> returns has \<open>array_info\<close> exactly when
  its data type is \<open>Array\<close>; then \<open>dimensions\<close> and \<open>start_indices\<close> have the same length,
  \<open>element_size\<close> is the size read from the wire, and the size of the variable is
  \<open>get_array_size\<close> of the dimensions, the element type and the element size.
\<close>

theorem get_variable_info_invariant:
  assumes "get_variable_info env rc nm = Inr (var, rc')"
  shows "(array_info var \<noteq> None \<longleftrightarrow> data_type var = Array)
       \<and> (\<forall>arr. array_info var = Some arr \<longrightarrow>
             length (dimensions arr) = length (start_indices arr)
             \<and> var_size var = get_array_size (dimensions arr) (element_type arr) (element_size arr)
             \<and> (\<exists>cip_response rc1.
                   request env (rc\<lparr>serializer :=
                       encode_get_attribute_all (serializer rc) (variable_request_path nm)\<rparr>)
                     = Inr (cip_response, rc1)
                   \<and> element_size arr = ucast (fst (read_uint32 (deserializer rc1)))))"
proof -
  let ?rq = "request env (rc\<lparr>serializer :=
      encode_get_attribute_all (serializer rc) (variable_request_path nm)\<rparr>)"
  from assms obtain cip_response rc1 where rq: "?rq = Inr (cip_response, rc1)"
    by (auto simp: get_variable_info_def split: sum.splits)
  obtain sz d1 where r1: "read_uint32 (deserializer rc1) = (sz, d1)"
    by (cases "read_uint32 (deserializer rc1)")
  obtain tb d2 where r2: "read_uint8 d1 = (tb, d2)" by (cases "read_uint8 d1")
  let ?var = "\<lparr>name = nm, data_type = cast_DataType env tb, var_size = ucast sz, array_info = None\<rparr>"
  let ?w1 = "if \<not> is_valid_value (cast_DataType env tb)
             then warnings rc1 @ [Unknown_type nm tb] else warnings rc1"
  show ?thesis
  proof (cases "cast_DataType env tb = Array")
    case True
    let ?avar = "\<lparr>name = nm, data_type = Array, var_size = ucast sz, array_info = None\<rparr>"
    obtain v' d' w' where ra: "read_array_info env ?avar d2 (warnings rc1) = (v', d', w')"
      by (cases "read_array_info env ?avar d2 (warnings rc1)")
    from assms True have "var = v'"
      by (simp add: get_variable_info_def rq r1 r2 ra Let_def split: if_splits)
    with read_array_info_result [OF ra] rq r1 show ?thesis by auto
  next
    case False
    with assms have "var = ?var"
      by (simp add: get_variable_info_def rq r1 r2 Let_def split: if_splits)
    with False show ?thesis by simp
  qed
qed

theorem get_variable_info_invariant_witness:
  "map_sum id fst (get_variable_info s3_env (new_RequestContext s3_env) [0x42, 0x69, 0x74, 0x73]) =
     Inr \<lparr>name = [0x42, 0x69, 0x74, 0x73], data_type = Array, var_size = 4,
          array_info = Some \<lparr>element_type = Bool, element_size = 1,
                              dimensions = [17], start_indices = [0]\<rparr>\<rparr>
   \<and> length [17 :: size_t] = length [0 :: size_t]
   \<and> (4 :: size_t) = get_array_size [17] Bool 1"
proof -
  let ?arr = "\<lparr>element_type = Bool, element_size = 1, dimensions = [17], start_indices = [0]\<rparr>"
  let ?var = "\<lparr>name = [0x42, 0x69, 0x74, 0x73], data_type = Array, var_size = 4,
               array_info = Some ?arr\<rparr>"
  let ?run = "get_variable_info s3_env (new_RequestContext s3_env) [0x42, 0x69, 0x74, 0x73]"
  have ev: "map_sum id fst ?run = Inr ?var" by (rule s3_eval)
  then obtain rc' where h: "?run = Inr (?var, rc')"
    by (cases ?run) auto
  from get_variable_info_invariant [OF h]
  have "\<forall>arr. array_info ?var = Some arr \<longrightarrow>
             length (dimensions arr) = length (start_indices arr)
             \<and> var_size ?var = get_array_size (dimensions arr) (element_type arr) (element_size arr)"
    by simp
  then have "length (dimensions ?arr) = length (start_indices ?arr)
      \<and> var_size ?var = get_array_size (dimensions ?arr) (element_type ?arr) (element_size ?arr)"
    by simp
  then have "length [17 :: size_t] = length [0 :: size_t]
      \<and> (4 :: size_t) = get_array_size [17] Bool 1"
    by simp
  with ev show ?thesis by (intro conjI) simp_all
qed

section \<open>list_signals.cpp: decode_instance_data\<close>

lemma remaining_after:
  assumes "remaining_buffer d = bs @ rest"
  shows "remaining_buffer (d\<lparr>d_cursor := d_cursor d + length bs\<rparr>) = rest"
proof -
  have "drop (d_cursor d + length bs) (d_buffer d) = drop (length bs) (drop (d_cursor d) (d_buffer d))"
    by (simp add: add.commute)
  with assms show ?thesis by (simp add: remaining_buffer_def)
qed

lemma des_read_prefix:
  assumes "\<not> d_has_error d" and "remaining_buffer d = bs @ rest" and "length dst = length bs"
  shows "des_read d dst = (True, bs, d\<lparr>d_cursor := d_cursor d + length bs\<rparr>)"
  using assms des_read_ok [OF assms(1), of dst] by simp

lemma des_advance_prefix:
  assumes "\<not> d_has_error d" and "remaining_buffer d = bs @ rest"
  shows "des_advance d (length bs) = (True, d\<lparr>d_cursor := d_cursor d + length bs\<rparr>)"
proof -
  have "length (remaining_buffer d) = length (d_buffer d) - d_cursor d"
    by (simp add: remaining_buffer_def)
  with assms(2) have "length bs \<le> length (d_buffer d) - d_cursor d"
    by simp
  with assms(1) show ?thesis by (simp add: des_advance_def can_read_def)
qed

lemma read_integral_prefix:
  fixes v :: "'a::len word"
  assumes "8 dvd LENGTH('a)" and "\<not> d_has_error d"
    and "remaining_buffer d = nat_to_bytes (sizeof v) (unat v) @ rest"
  shows "read_integral Little native d = (v, d\<lparr>d_cursor := d_cursor d + sizeof v\<rparr>)"
proof -
  let ?bs = "nat_to_bytes (sizeof v) (unat v)"
  have sz: "sizeof (0 :: 'a word) = sizeof v" by (simp add: sizeof_def)
  have "des_read d (replicate (sizeof v) 0) = (True, ?bs, d\<lparr>d_cursor := d_cursor d + length ?bs\<rparr>)"
    by (rule des_read_prefix [OF assms(2,3)]) simp
  then show ?thesis
    by (simp add: read_integral_little [OF assms(1)] sz bytes_of_word_round_trip [OF assms(1)])
qed

lemma read_string_prefix:
  assumes "\<not> d_has_error d" and "remaining_buffer d = bs @ rest"
  shows "read_string d (length bs) = (bs, d\<lparr>d_cursor := d_cursor d + length bs\<rparr>)"
  using des_read_prefix [OF assms, of "replicate (length bs) 0"]
  by (simp add: read_string_def)

lemma read_integral_step:
  fixes v :: "'a::len word"
  assumes "8 dvd LENGTH('a)" and "\<not> d_has_error d"
    and "remaining_buffer d = nat_to_bytes (sizeof v) (unat v) @ rest"
    and "d' = d\<lparr>d_cursor := d_cursor d + sizeof v\<rparr>"
  shows "read_integral Little native d = (v, d') \<and> \<not> d_has_error d' \<and> remaining_buffer d' = rest"
  using read_integral_prefix [OF assms(1,2,3)] remaining_after [OF assms(3)] assms(2,4)
  by simp

lemma des_advance_step:
  assumes "\<not> d_has_error d" and "remaining_buffer d = bs @ rest" and "n = length bs"
    and "d' = d\<lparr>d_cursor := d_cursor d + n\<rparr>"
  shows "des_advance d n = (True, d') \<and> \<not> d_has_error d' \<and> remaining_buffer d' = rest"
  using des_advance_prefix [OF assms(1,2)] remaining_after [OF assms(2)] assms(1,3,4)
  by simp

lemma read_string_step:
  assumes "\<not> d_has_error d" and "remaining_buffer d = bs @ rest" and "n = length bs"
    and "d' = d\<lparr>d_cursor := d_cursor d + n\<rparr>"
  shows "read_string d n = (bs, d') \<and> \<not> d_has_error d' \<and> remaining_buffer d' = rest"
  using read_string_prefix [OF assms(1,2)] remaining_after [OF assms(2)] assms(1,3,4)
  by simp

lemma decode_entry_fields:
  fixes ident :: "32 word" and entry_len :: "16 word"
  assumes ok: "\<not> d_has_error d"
    and buf: "remaining_buffer d =
        nat_to_bytes 4 (unat ident) @ nat_to_bytes 2 (unat entry_len) @ cls @ again
          @ [of_nat (length nm)] @ nm @ rest"
    and len: "length cls = 2" "length again = 4" "length nm < 256"
  shows "read_uint32 d = (ident, d\<lparr>d_cursor := d_cursor d + 4\<rparr>)
       \<and> read_uint16 (d\<lparr>d_cursor := d_cursor d + 4\<rparr>) = (entry_len, d\<lparr>d_cursor := d_cursor d + 6\<rparr>)
       \<and> des_advance (d\<lparr>d_cursor := d_cursor d + 6\<rparr>) 2 = (True, d\<lparr>d_cursor := d_cursor d + 8\<rparr>)
       \<and> des_advance (d\<lparr>d_cursor := d_cursor d + 8\<rparr>) 4 = (True, d\<lparr>d_cursor := d_cursor d + 12\<rparr>)
       \<and> read_uint8 (d\<lparr>d_cursor := d_cursor d + 12\<rparr>)
           = (of_nat (length nm), d\<lparr>d_cursor := d_cursor d + 13\<rparr>)
       \<and> read_string (d\<lparr>d_cursor := d_cursor d + 13\<rparr>) (unat (of_nat (length nm) :: 8 word))
           = (nm, d\<lparr>d_cursor := d_cursor d + 13 + length nm\<rparr>)
       \<and> remaining_buffer (d\<lparr>d_cursor := d_cursor d + 13 + length nm\<rparr>) = rest
       \<and> uint (of_nat (length nm) :: 8 word) = int (length nm)"
proof -
  let ?nl = "of_nat (length nm) :: 8 word"
  have unl: "unat ?nl = length nm" using len(3) by (simp add: unat_of_nat)
  let ?d1 = "d\<lparr>d_cursor := d_cursor d + 4\<rparr>"
  let ?d2 = "d\<lparr>d_cursor := d_cursor d + 6\<rparr>"
  let ?d3 = "d\<lparr>d_cursor := d_cursor d + 8\<rparr>"
  let ?d4 = "d\<lparr>d_cursor := d_cursor d + 12\<rparr>"
  let ?d5 = "d\<lparr>d_cursor := d_cursor d + 13\<rparr>"
  let ?d6 = "d\<lparr>d_cursor := d_cursor d + 13 + length nm\<rparr>"
  have d32: "8 dvd LENGTH(32)" and d16: "8 dvd LENGTH(16)" and d8: "8 dvd LENGTH(8)"
    by simp_all
  have b0: "remaining_buffer d = nat_to_bytes (sizeof ident) (unat ident)
      @ (nat_to_bytes 2 (unat entry_len) @ cls @ again @ [?nl] @ nm @ rest)"
    using buf by (simp add: sizeof_numerals)
  have s1: "read_uint32 d = (ident, ?d1) \<and> \<not> d_has_error ?d1
      \<and> remaining_buffer ?d1 = nat_to_bytes 2 (unat entry_len) @ cls @ again @ [?nl] @ nm @ rest"
    by (rule read_integral_step [OF d32 ok b0]) (simp add: sizeof_numerals)
  then have b1: "remaining_buffer ?d1 = nat_to_bytes (sizeof entry_len) (unat entry_len)
      @ (cls @ again @ [?nl] @ nm @ rest)"
    by (simp add: sizeof_numerals)
  from s1 have ok1: "\<not> d_has_error ?d1" by simp
  have s2: "read_uint16 ?d1 = (entry_len, ?d2) \<and> \<not> d_has_error ?d2
      \<and> remaining_buffer ?d2 = cls @ again @ [?nl] @ nm @ rest"
    by (rule read_integral_step [OF d16 ok1 b1]) (simp add: sizeof_numerals)
  then have b2: "remaining_buffer ?d2 = cls @ (again @ [?nl] @ nm @ rest)"
    and ok2: "\<not> d_has_error ?d2" by simp_all
  have s3: "des_advance ?d2 2 = (True, ?d3) \<and> \<not> d_has_error ?d3
      \<and> remaining_buffer ?d3 = again @ [?nl] @ nm @ rest"
    by (rule des_advance_step [OF ok2 b2]) (simp_all add: len)
  then have b3: "remaining_buffer ?d3 = again @ ([?nl] @ nm @ rest)"
    and ok3: "\<not> d_has_error ?d3" by simp_all
  have s4: "des_advance ?d3 4 = (True, ?d4) \<and> \<not> d_has_error ?d4
      \<and> remaining_buffer ?d4 = [?nl] @ nm @ rest"
    by (rule des_advance_step [OF ok3 b3]) (simp_all add: len)
  then have b4: "remaining_buffer ?d4 = nat_to_bytes (sizeof ?nl) (unat ?nl) @ (nm @ rest)"
    by (simp only: nat_to_bytes_byte append_Cons append_Nil)
  from ok have ok4: "\<not> d_has_error ?d4" by simp
  have s5: "read_uint8 ?d4 = (?nl, ?d5) \<and> \<not> d_has_error ?d5
      \<and> remaining_buffer ?d5 = nm @ rest"
    by (rule read_integral_step [OF d8 ok4 b4]) (simp add: sizeof_numerals)
  then have b5: "remaining_buffer ?d5 = nm @ rest"
    and ok5: "\<not> d_has_error ?d5" by simp_all
  have s6: "read_string ?d5 (length nm) = (nm, ?d6) \<and> \<not> d_has_error ?d6
      \<and> remaining_buffer ?d6 = rest"
    by (rule read_string_step [OF ok5 b5]) simp_all
  have "uint ?nl = int (unat ?nl)" by simp
  with unl have u: "uint ?nl = int (length nm)" by (simp only:)
  have r1: "read_uint32 d = (ident, ?d1)" using s1 by (rule conjunct1)
  have r2: "read_uint16 ?d1 = (entry_len, ?d2)" using s2 by (rule conjunct1)
  have r3: "des_advance ?d2 2 = (True, ?d3)" using s3 by (rule conjunct1)
  have r4: "des_advance ?d3 4 = (True, ?d4)" using s4 by (rule conjunct1)
  have r5: "read_uint8 ?d4 = (?nl, ?d5)" using s5 by (rule conjunct1)
  have r6: "read_string ?d5 (unat ?nl) = (nm, ?d6)" using s6 unl by (simp only:)
  from s6 have b6: "remaining_buffer ?d6 = rest" by simp
  from r1 r2 r3 r4 r5 r6 b6 u show ?thesis by (intro conjI)
qed

lemma decode_entry:
  fixes ident :: "32 word" and entry_len :: "16 word"
  assumes ok: "\<not> d_has_error d"
    and buf: "remaining_buffer d =
        nat_to_bytes 4 (unat ident) @ nat_to_bytes 2 (unat entry_len) @ cls @ again
          @ [of_nat (length nm)] @ nm @ pad @ rest"
    and len: "length cls = 2" "length again = 4" "length nm < 256"
    and padlen: "length pad = unat entry_len - (2 + 4 + 1 + length nm)"
  shows "decode_instance_data d =
     (\<lparr>inst_id = ident, inst_name = nm\<rparr>,
      d\<lparr>d_cursor := d_cursor d + 13 + length nm + length pad\<rparr>)"
proof -
  let ?nl = "of_nat (length nm) :: 8 word"
  let ?d1 = "d\<lparr>d_cursor := d_cursor d + 4\<rparr>"
  let ?d2 = "d\<lparr>d_cursor := d_cursor d + 6\<rparr>"
  let ?d3 = "d\<lparr>d_cursor := d_cursor d + 8\<rparr>"
  let ?d4 = "d\<lparr>d_cursor := d_cursor d + 12\<rparr>"
  let ?d5 = "d\<lparr>d_cursor := d_cursor d + 13\<rparr>"
  let ?d6 = "d\<lparr>d_cursor := d_cursor d + 13 + length nm\<rparr>"
  let ?d7 = "d\<lparr>d_cursor := d_cursor d + 13 + length nm + length pad\<rparr>"
  note f = decode_entry_fields [OF ok buf len]
  have r1: "read_uint32 d = (ident, ?d1)" using f by (elim conjE)
  have r2: "read_uint16 ?d1 = (entry_len, ?d2)" using f by (elim conjE)
  have r3: "des_advance ?d2 2 = (True, ?d3)" using f by (elim conjE)
  have r4: "des_advance ?d3 4 = (True, ?d4)" using f by (elim conjE)
  have r5: "read_uint8 ?d4 = (?nl, ?d5)" using f by (elim conjE)
  have r6: "read_string ?d5 (unat ?nl) = (nm, ?d6)" using f by (elim conjE)
  have b6: "remaining_buffer ?d6 = pad @ rest" using f by (elim conjE)
  have u: "uint ?nl = int (length nm)" using f by (elim conjE)
  have ue: "uint entry_len = int (unat entry_len)" by simp
  from ok have ok6: "\<not> d_has_error ?d6" by simp
  show ?thesis
  proof (cases "uint entry_len > 2 + 4 + 1 + uint ?nl")
    case True
    with u ue have "nat (uint entry_len - 2 - 4 - 1 - uint ?nl) = unat entry_len - (2 + 4 + 1 + length nm)"
      by linarith
    with padlen have n: "nat (uint entry_len - 2 - 4 - 1 - uint ?nl) = length pad" by simp
    have "des_advance ?d6 (length pad) = (True, ?d7) \<and> \<not> d_has_error ?d7
        \<and> remaining_buffer ?d7 = rest"
      by (rule des_advance_step [OF ok6 b6]) simp_all
    then have r7: "snd (des_advance ?d6 (nat (uint entry_len - 2 - 4 - 1 - uint ?nl))) = ?d7"
      by (simp only: n snd_conv)
    show ?thesis
      unfolding decode_instance_data_def r1 Let_def prod.case r2 r3 r4 r5 r6 if_P [OF True] r7 ..
  next
    case False
    with u ue padlen have "length pad = 0" by linarith
    then have e: "?d7 = ?d6" by simp
    show ?thesis
      unfolding decode_instance_data_def r1 Let_def prod.case r2 r3 r4 r5 r6 if_not_P [OF False] e ..
  qed
qed

lemma decode_instances_error:
  "decode_instances n i d names nx = Inl e
     \<Longrightarrow> \<exists>m. e = Could_not_decode_all_instance_data m \<and> i \<le> m \<and> m < i + n"
proof (induction n arbitrary: i d names nx)
  case 0
  then show ?case by simp
next
  case (Suc n)
  obtain inst d' where dec: "decode_instance_data d = (inst, d')"
    by (cases "decode_instance_data d")
  show ?case
  proof (cases "d_has_error d'")
    case True
    with Suc.prems dec have "e = Could_not_decode_all_instance_data i" by simp
    then show ?thesis by simp
  next
    case False
    with Suc.prems dec
    have "decode_instances n (Suc i) d' (names @ [inst_name inst]) (inst_id inst + 1) = Inl e"
      by simp
    from Suc.IH [OF this] obtain m
      where "e = Could_not_decode_all_instance_data m" and "Suc i \<le> m" and "m < Suc i + n"
      by blast
    then show ?thesis by (intro exI [of _ m]) simp
  qed
qed

lemma decode_instances_error_first:
  "(decode_instances (Suc k) i d names nx = Inl (Could_not_decode_all_instance_data i))
     = d_has_error (snd (decode_instance_data d))"
proof -
  obtain inst d' where dec: "decode_instance_data d = (inst, d')"
    by (cases "decode_instance_data d")
  show ?thesis
  proof (cases "d_has_error d'")
    case True
    with dec show ?thesis by simp
  next
    case False
    have "decode_instances k (Suc i) d' (names @ [inst_name inst]) (inst_id inst + 1)
        \<noteq> Inl (Could_not_decode_all_instance_data i)"
    proof
      assume "decode_instances k (Suc i) d' (names @ [inst_name inst]) (inst_id inst + 1)
        = Inl (Could_not_decode_all_instance_data i)"
      from decode_instances_error [OF this] show False by simp
    qed
    with False dec show ?thesis by simp
  qed
qed

lemma can_read_flag:
  "\<not> d_has_error d \<Longrightarrow> d_has_error (snd (can_read d n)) = (length (remaining_buffer d) < n)"
  by (simp add: can_read_def remaining_buffer_def)

text \<open>
  C3, as the code has it. An instance record whose \<open>entry_len\<close> is at most
  \<open>2 + 4 + 1 + name_len\<close> is decoded without skipping any trailing bytes: when the buffer
  holds its fixed fields and its name, \<open>decode_instance_data\<close> returns the id and the
  name, leaves the error flag clear and the cursor right behind the name, and the loop of
  \<open>get_variables_fast\<close> accepts the record and goes on. The guard
  \<open>instance_data_len > 2 + 4 + 1 + name_len\<close> makes no difference between an entry length
  that is too short and one that leaves no padding. An error of the loop carries the index
  of a record of the page; it is the index of the first record exactly when the error flag
  is set after decoding that record; a read or skip sets the flag only when fewer bytes
  remain than it asks for; and the flag stays clear whenever the buffer holds the whole
  record: the fixed fields, the name and, for a longer \<open>entry_len\<close>, the
  \<open>entry_len - 7 - name_len\<close> bytes of padding.
\<close>

theorem short_instance_entry_accepted:
  fixes ident :: "32 word" and entry_len :: "16 word"
  assumes "\<not> d_has_error d"
    and "remaining_buffer d =
        nat_to_bytes 4 (unat ident) @ nat_to_bytes 2 (unat entry_len) @ cls @ again
          @ [of_nat (length nm)] @ nm @ rest"
    and "length cls = 2" and "length again = 4" and "length nm < 256"
    and "unat entry_len \<le> 2 + 4 + 1 + length nm"
  shows "decode_instance_data d =
           (\<lparr>inst_id = ident, inst_name = nm\<rparr>, d\<lparr>d_cursor := d_cursor d + 13 + length nm\<rparr>)
       \<and> \<not> d_has_error (snd (decode_instance_data d))
       \<and> decode_instances (Suc k) i d names next_instance_id =
           decode_instances k (Suc i) (d\<lparr>d_cursor := d_cursor d + 13 + length nm\<rparr>)
             (names @ [nm]) (ident + 1)
       \<and> (\<forall>n j d0 ns nx e. decode_instances n j d0 ns nx = Inl e \<longrightarrow>
             (\<exists>m. e = Could_not_decode_all_instance_data m \<and> j \<le> m \<and> m < j + n))
       \<and> (\<forall>k0 j d0 ns nx.
             (decode_instances (Suc k0) j d0 ns nx = Inl (Could_not_decode_all_instance_data j))
               = d_has_error (snd (decode_instance_data d0)))
       \<and> (\<forall>d0 n. \<not> d_has_error d0 \<longrightarrow>
             d_has_error (snd (can_read d0 n)) = (length (remaining_buffer d0) < n))
       \<and> (\<forall>d0 (el :: 16 word) pad rest0.
             \<not> d_has_error d0
             \<and> remaining_buffer d0 =
                 nat_to_bytes 4 (unat ident) @ nat_to_bytes 2 (unat el) @ cls @ again
                   @ [of_nat (length nm)] @ nm @ pad @ rest0
             \<and> length pad = unat el - (2 + 4 + 1 + length nm)
             \<longrightarrow> \<not> d_has_error (snd (decode_instance_data d0))
               \<and> d_cursor (snd (decode_instance_data d0))
                   = d_cursor d0 + 13 + length nm + length pad)"
proof -
  from assms(6) have p0: "length ([] :: bytes) = unat entry_len - (2 + 4 + 1 + length nm)"
    by simp
  from assms(2) have b0: "remaining_buffer d =
        nat_to_bytes 4 (unat ident) @ nat_to_bytes 2 (unat entry_len) @ cls @ again
          @ [of_nat (length nm)] @ nm @ [] @ rest"
    by simp
  have "decode_instance_data d =
      (\<lparr>inst_id = ident, inst_name = nm\<rparr>,
       d\<lparr>d_cursor := d_cursor d + 13 + length nm + length ([] :: bytes)\<rparr>)"
    by (rule decode_entry [OF assms(1) b0 assms(3,4,5) p0])
  then have dec: "decode_instance_data d =
      (\<lparr>inst_id = ident, inst_name = nm\<rparr>, d\<lparr>d_cursor := d_cursor d + 13 + length nm\<rparr>)"
    by simp
  have A: "\<not> d_has_error (snd (decode_instance_data d))"
    using assms(1) by (simp add: dec)
  have B: "decode_instances (Suc k) i d names next_instance_id =
           decode_instances k (Suc i) (d\<lparr>d_cursor := d_cursor d + 13 + length nm\<rparr>)
             (names @ [nm]) (ident + 1)"
    using assms(1) by (simp add: dec)
  have C: "\<forall>n j d0 ns nx e. decode_instances n j d0 ns nx = Inl e \<longrightarrow>
             (\<exists>m. e = Could_not_decode_all_instance_data m \<and> j \<le> m \<and> m < j + n)"
    by (intro allI impI) (rule decode_instances_error)
  have D: "\<forall>k0 j d0 ns nx.
             (decode_instances (Suc k0) j d0 ns nx = Inl (Could_not_decode_all_instance_data j))
               = d_has_error (snd (decode_instance_data d0))"
    by (intro allI) (rule decode_instances_error_first)
  have E: "\<forall>d0 n. \<not> d_has_error d0 \<longrightarrow>
             d_has_error (snd (can_read d0 n)) = (length (remaining_buffer d0) < n)"
    by (intro allI impI) (rule can_read_flag)
  have F: "\<forall>d0 (el :: 16 word) pad rest0.
             \<not> d_has_error d0
             \<and> remaining_buffer d0 =
                 nat_to_bytes 4 (unat ident) @ nat_to_bytes 2 (unat el) @ cls @ again
                   @ [of_nat (length nm)] @ nm @ pad @ rest0
             \<and> length pad = unat el - (2 + 4 + 1 + length nm)
             \<longrightarrow> \<not> d_has_error (snd (decode_instance_data d0))
               \<and> d_cursor (snd (decode_instance_data d0))
                   = d_cursor d0 + 13 + length nm + length pad"
  proof (intro allI impI)
    fix d0 :: FixedBufferDeserializer and el :: "16 word" and pad rest0 :: bytes
    assume h: "\<not> d_has_error d0
             \<and> remaining_buffer d0 =
                 nat_to_bytes 4 (unat ident) @ nat_to_bytes 2 (unat el) @ cls @ again
                   @ [of_nat (length nm)] @ nm @ pad @ rest0
             \<and> length pad = unat el - (2 + 4 + 1 + length nm)"
    then have h1: "\<not> d_has_error d0"
      and h2: "remaining_buffer d0 =
                 nat_to_bytes 4 (unat ident) @ nat_to_bytes 2 (unat el) @ cls @ again
                   @ [of_nat (length nm)] @ nm @ pad @ rest0"
      and h3: "length pad = unat el - (2 + 4 + 1 + length nm)"
      by simp_all
    have "decode_instance_data d0 =
      (\<lparr>inst_id = ident, inst_name = nm\<rparr>,
       d0\<lparr>d_cursor := d_cursor d0 + 13 + length nm + length pad\<rparr>)"
      by (rule decode_entry [OF h1 h2 assms(3,4,5) h3])
    with h1 show "\<not> d_has_error (snd (decode_instance_data d0))
               \<and> d_cursor (snd (decode_instance_data d0))
                   = d_cursor d0 + 13 + length nm + length pad"
      by simp
  qed
  from dec A B C D E F show ?thesis by (intro conjI)
qed

theorem short_instance_entry_accepted_witness:
  "decode_instance_data (new_deserializer [9, 0, 0, 0, 3, 0, 0x6B, 0, 9, 0, 0, 0, 2, 0x41, 0x42, 0xFF]) =
     (\<lparr>inst_id = 9, inst_name = [0x41, 0x42]\<rparr>,
      \<lparr>d_buffer = [9, 0, 0, 0, 3, 0, 0x6B, 0, 9, 0, 0, 0, 2, 0x41, 0x42, 0xFF],
        d_cursor = 15, d_has_error = False\<rparr>)
   \<and> decode_instances (Suc 0) 0 (new_deserializer [7, 0, 0]) [] 1
       = Inl (Could_not_decode_all_instance_data 0)"
proof -
  let ?d = "new_deserializer [9, 0, 0, 0, 3, 0, 0x6B, 0, 9, 0, 0, 0, 2, 0x41, 0x42, 0xFF]"
  have h1: "\<not> d_has_error ?d" by (simp add: new_deserializer_def)
  have h2: "remaining_buffer ?d =
        nat_to_bytes 4 (unat (9 :: 32 word)) @ nat_to_bytes 2 (unat (3 :: 16 word))
          @ [0x6B, 0] @ [9, 0, 0, 0] @ [of_nat (length [0x41, 0x42 :: byte])] @ [0x41, 0x42] @ [0xFF]"
    by (simp add: new_deserializer_def remaining_buffer_def nat_to_bytes_numeral)
  have h3: "length [0x6B, 0 :: byte] = 2" by simp
  have h4: "length [9, 0, 0, 0 :: byte] = 4" by simp
  have h5: "length [0x41, 0x42 :: byte] < 256" by simp
  have h6: "unat (3 :: 16 word) \<le> 2 + 4 + 1 + length [0x41, 0x42 :: byte]" by simp
  note r = short_instance_entry_accepted [OF h1 h2 h3 h4 h5 h6, of 0 0 "[]" 1]
  from r have "decode_instance_data ?d =
      (\<lparr>inst_id = 9, inst_name = [0x41, 0x42]\<rparr>,
       ?d\<lparr>d_cursor := d_cursor ?d + 13 + length [0x41, 0x42 :: byte]\<rparr>)"
    by (rule conjunct1)
  then have a: "decode_instance_data ?d =
     (\<lparr>inst_id = 9, inst_name = [0x41, 0x42]\<rparr>,
      \<lparr>d_buffer = [9, 0, 0, 0, 3, 0, 0x6B, 0, 9, 0, 0, 0, 2, 0x41, 0x42, 0xFF],
        d_cursor = 15, d_has_error = False\<rparr>)"
    by (simp add: new_deserializer_def)
  from r have "\<forall>k0 j d0 ns nx.
             (decode_instances (Suc k0) j d0 ns nx = Inl (Could_not_decode_all_instance_data j))
               = d_has_error (snd (decode_instance_data d0))"
    by (elim conjE)
  then have "(decode_instances (Suc 0) 0 (new_deserializer [7, 0, 0]) [] 1
        = Inl (Could_not_decode_all_instance_data 0))
      = d_has_error (snd (decode_instance_data (new_deserializer [7, 0, 0])))"
    by (elim allE)
  moreover have "d_has_error (snd (decode_instance_data (new_deserializer [7, 0, 0])))"
    by (simp add: decode_instance_data_def new_deserializer_def des_eval Let_def)
  ultimately have b: "decode_instances (Suc 0) 0 (new_deserializer [7, 0, 0]) [] 1
        = Inl (Could_not_decode_all_instance_data 0)"
    by (rule iffD2)
  from a b show ?thesis by (intro conjI)
qed

text \<open>
  The record with id 7, \<open>entry_len = 0\<close> and the one-byte name \<open>A\<close>: its entry length is
  shorter than its fixed fields and name, and it is decoded without any error.
\<close>

theorem short_instance_entry_counterexample:
  "decode_instance_data (new_deserializer [7, 0, 0, 0, 0, 0, 0x6B, 0, 7, 0, 0, 0, 1, 0x41]) =
     (\<lparr>inst_id = 7, inst_name = [0x41]\<rparr>,
      \<lparr>d_buffer = [7, 0, 0, 0, 0, 0, 0x6B, 0, 7, 0, 0, 0, 1, 0x41],
        d_cursor = 14, d_has_error = False\<rparr>)
   \<and> decode_instances 1 0 (new_deserializer [7, 0, 0, 0, 0, 0, 0x6B, 0, 7, 0, 0, 0, 1, 0x41]) [] 1 =
     Inr (\<lparr>d_buffer = [7, 0, 0, 0, 0, 0, 0x6B, 0, 7, 0, 0, 0, 1, 0x41],
           d_cursor = 14, d_has_error = False\<rparr>, [[0x41]], 8)"
proof -
  have dec: "decode_instance_data (new_deserializer [7, 0, 0, 0, 0, 0, 0x6B, 0, 7, 0, 0, 0, 1, 0x41]) =
     (\<lparr>inst_id = 7, inst_name = [0x41]\<rparr>,
      \<lparr>d_buffer = [7, 0, 0, 0, 0, 0, 0x6B, 0, 7, 0, 0, 0, 1, 0x41],
        d_cursor = 14, d_has_error = False\<rparr>)"
    by (simp add: decode_instance_data_def new_deserializer_def des_eval Let_def)
  have "decode_instances (Suc 0) 0 (new_deserializer [7, 0, 0, 0, 0, 0, 0x6B, 0, 7, 0, 0, 0, 1, 0x41]) [] 1 =
     Inr (\<lparr>d_buffer = [7, 0, 0, 0, 0, 0, 0x6B, 0, 7, 0, 0, 0, 1, 0x41],
           d_cursor = 14, d_has_error = False\<rparr>, [[0x41]], 8)"
    by (simp add: dec)
  with dec show ?thesis by simp
qed

section \<open>omcon.cpp: the error message of request\<close>

lemma error_status_message_eq:
  "error_status_message native r =
     ''Received error status in CIP response: '' @ hex_alt (unat (general_status r))
     @ (if extended_status r \<noteq> []
        then '', extended: ''
               @ format_optional_hex_alt (extended_status_to_int native (extended_status r))
        else [])
     @ (if general_status_message (general_status r) \<noteq> []
           \<or> extended_status_message native (extended_status r) \<noteq> []
        then '' - '' @ general_status_message (general_status r)
               @ (if extended_status_message native (extended_status r) \<noteq> []
                  then '', '' @ extended_status_message native (extended_status r)
                  else [])
        else [])"
  by (simp add: error_status_message_def Let_def)

lemma unat_ucast_up:
  fixes w :: "'a::len word"
  assumes "LENGTH('a) \<le> LENGTH('b::len)"
  shows "unat (ucast w :: 'b word) = unat w"
proof -
  have "unat w < 2 ^ LENGTH('a)" by (rule unsigned_less)
  also from assms have "(2::nat) ^ LENGTH('a) \<le> 2 ^ LENGTH('b)" by simp
  finally have "take_bit LENGTH('b) (unat w) = unat w" by (rule take_bit_nat_eq_self)
  then show ?thesis by (simp add: unsigned_ucast_eq)
qed

lemma format_extended_status:
  "format_optional_hex_alt (extended_status_to_int native ext) =
     (if length ext = 1 then ''optional('' @ hex_alt (unat (read_int native ext :: 8 word)) @ '')''
      else if length ext = 2 then ''optional('' @ hex_alt (unat (read_int native ext :: 16 word)) @ '')''
      else if length ext = 4 then ''optional('' @ hex_alt (unat (read_int native ext :: 32 word)) @ '')''
      else if length ext = 8 then ''optional('' @ hex_alt (unat (read_int native ext :: 64 word)) @ '')''
      else ''none'')"
  by (simp add: format_optional_hex_alt_def extended_status_to_int_def unat_ucast_up)

lemma hex_1f: "hex_alt 31 = ''0x1f''"
  by (simp add: hex_alt_def hex.simps hex_digit_def)

lemma hex_8007: "hex_alt 32775 = ''0x8007''"
  by (simp add: hex_alt_def hex.simps hex_digit_def)

lemma s5_ext: "(read_int Little [0x07, 0x80] :: 16 word) = 0x8007"
  by (simp add: read_int_def object_of_bytes_def)

lemma s5_message:
  "error_status_message Little
     \<lparr>reply_service = rs, general_status = 0x1F, extended_status = [0x07, 0x80]\<rparr> =
   ''Received error status in CIP response: 0x1f, extended: optional(0x8007) - Vendor Specific Error, An inaccessible variable was specified''"
  by (simp add: error_status_message_def Let_def hex_1f general_status_message_def
      extended_status_message_def extended_status_to_int_def s5_ext format_optional_hex_alt_def hex_8007)


lemma request_error_status:
  assumes "tag_get_data env (sent rc @ [serialized_buffer (serializer rc)]) = Inr response_data"
    and "length response_data \<le> recv_buffer_size env"
    and "CipResponse_decode (new_deserializer response_data) = (True, r, d)"
    and "general_status r \<noteq> 0"
  shows "request env rc = Inl (Received_error_status (error_status_message host_endian r))"
  using assms by (simp add: request_def Let_def)

text \<open>
  C7, as the code has it. The message of the error that \<open>request\<close> raises for a non-zero
  general status is \<open>Received error status in CIP response: 0x<gen>\<close>; then, exactly when the
  extended status bytes are not empty, \<open>, extended: \<close> and the formatted optional integer,
  which is \<open>optional(0x<ext>)\<close> for 1, 2, 4 or 8 extended status bytes and \<open>none\<close> for any
  other number of them; then, exactly when one of the two table lookups is not empty,
  \<open> - <gen_msg>\<close> and, when the extended lookup is not empty, \<open>, <ext_msg>\<close>. For general
  status \<open>0x1F\<close> and extended status bytes \<open>07 80\<close> on a little-endian host the message is
  the one spelt out below, which contains \<open>0x1f\<close>, \<open>0x8007\<close>, \<open>Vendor Specific Error\<close> and
  \<open>An inaccessible variable was specified\<close>. \<open>request\<close> returns that error whenever the
  response fits the receive buffer, decodes, and carries a non-zero general status.
\<close>

theorem error_status_message_form:
  "error_status_message native r =
     ''Received error status in CIP response: '' @ hex_alt (unat (general_status r))
     @ (if extended_status r \<noteq> []
        then '', extended: ''
               @ format_optional_hex_alt (extended_status_to_int native (extended_status r))
        else [])
     @ (if general_status_message (general_status r) \<noteq> []
           \<or> extended_status_message native (extended_status r) \<noteq> []
        then '' - '' @ general_status_message (general_status r)
               @ (if extended_status_message native (extended_status r) \<noteq> []
                  then '', '' @ extended_status_message native (extended_status r)
                  else [])
        else [])
   \<and> format_optional_hex_alt (extended_status_to_int native ext) =
       (if length ext = 1
          then ''optional('' @ hex_alt (unat (read_int native ext :: 8 word)) @ '')''
        else if length ext = 2
          then ''optional('' @ hex_alt (unat (read_int native ext :: 16 word)) @ '')''
        else if length ext = 4
          then ''optional('' @ hex_alt (unat (read_int native ext :: 32 word)) @ '')''
        else if length ext = 8
          then ''optional('' @ hex_alt (unat (read_int native ext :: 64 word)) @ '')''
        else ''none'')
   \<and> error_status_message Little
         \<lparr>reply_service = rs, general_status = 0x1F, extended_status = [0x07, 0x80]\<rparr> =
       ''Received error status in CIP response: 0x1f, extended: optional(0x8007) - Vendor Specific Error, An inaccessible variable was specified''
   \<and> (tag_get_data env (sent rc @ [serialized_buffer (serializer rc)]) = Inr response_data
        \<and> length response_data \<le> recv_buffer_size env
        \<and> CipResponse_decode (new_deserializer response_data) = (True, r, d)
        \<and> general_status r \<noteq> 0
        \<longrightarrow> request env rc = Inl (Received_error_status (error_status_message host_endian r)))"
proof (intro conjI impI)
  show "error_status_message native r =
     ''Received error status in CIP response: '' @ hex_alt (unat (general_status r))
     @ (if extended_status r \<noteq> []
        then '', extended: ''
               @ format_optional_hex_alt (extended_status_to_int native (extended_status r))
        else [])
     @ (if general_status_message (general_status r) \<noteq> []
           \<or> extended_status_message native (extended_status r) \<noteq> []
        then '' - '' @ general_status_message (general_status r)
               @ (if extended_status_message native (extended_status r) \<noteq> []
                  then '', '' @ extended_status_message native (extended_status r)
                  else [])
        else [])"
    by (rule error_status_message_eq)
next
  show "format_optional_hex_alt (extended_status_to_int native ext) =
       (if length ext = 1
          then ''optional('' @ hex_alt (unat (read_int native ext :: 8 word)) @ '')''
        else if length ext = 2
          then ''optional('' @ hex_alt (unat (read_int native ext :: 16 word)) @ '')''
        else if length ext = 4
          then ''optional('' @ hex_alt (unat (read_int native ext :: 32 word)) @ '')''
        else if length ext = 8
          then ''optional('' @ hex_alt (unat (read_int native ext :: 64 word)) @ '')''
        else ''none'')"
    by (rule format_extended_status)
next
  show "error_status_message Little
         \<lparr>reply_service = rs, general_status = 0x1F, extended_status = [0x07, 0x80]\<rparr> =
       ''Received error status in CIP response: 0x1f, extended: optional(0x8007) - Vendor Specific Error, An inaccessible variable was specified''"
    by (rule s5_message)
next
  assume "tag_get_data env (sent rc @ [serialized_buffer (serializer rc)]) = Inr response_data
        \<and> length response_data \<le> recv_buffer_size env
        \<and> CipResponse_decode (new_deserializer response_data) = (True, r, d)
        \<and> general_status r \<noteq> 0"
  then show "request env rc = Inl (Received_error_status (error_status_message host_endian r))"
    by (intro request_error_status [where d = d and response_data = response_data]) simp_all
qed

lemma s5_decode:
  "CipResponse_decode (new_deserializer s5_response) =
     (True, \<lparr>reply_service = 0x81, general_status = 0x1F, extended_status = [0x07, 0x80]\<rparr>,
      \<lparr>d_buffer = s5_response, d_cursor = 6, d_has_error = False\<rparr>)"
  by (simp add: CipResponse_decode_def new_deserializer_def s5_response_def des_eval)

theorem error_status_message_form_witness:
  "request s5_env (new_RequestContext s5_env) =
     Inl (Received_error_status
       ''Received error status in CIP response: 0x1f, extended: optional(0x8007) - Vendor Specific Error, An inaccessible variable was specified'')"
proof -
  let ?rc = "new_RequestContext s5_env"
  let ?r = "\<lparr>reply_service = 0x81, general_status = 0x1F, extended_status = [0x07, 0x80]\<rparr>"
  let ?d = "\<lparr>d_buffer = s5_response, d_cursor = 6, d_has_error = False\<rparr>"
  have h: "tag_get_data s5_env (sent ?rc @ [serialized_buffer (serializer ?rc)]) = Inr s5_response
        \<and> length s5_response \<le> recv_buffer_size s5_env
        \<and> CipResponse_decode (new_deserializer s5_response) = (True, ?r, ?d)
        \<and> general_status ?r \<noteq> 0"
    by (simp add: s5_decode) (simp add: s5_env_def s5_response_def)
  note t = error_status_message_form [where env = s5_env and rc = ?rc
      and response_data = s5_response and r = ?r and d = ?d and rs = "0x81"
      and native = Little and ext = "[]"]
  have "request s5_env ?rc
      = Inl (Received_error_status (error_status_message host_endian ?r))"
    by (rule t [THEN conjunct2, THEN conjunct2, THEN conjunct2, THEN mp, OF h])
  moreover have "error_status_message Little ?r =
       ''Received error status in CIP response: 0x1f, extended: optional(0x8007) - Vendor Specific Error, An inaccessible variable was specified''"
    by (rule t [THEN conjunct2, THEN conjunct2, THEN conjunct1])
  ultimately show ?thesis by (simp add: host_endian_def)
qed

text \<open>
  Three extended status words: \<open>extended_status_to_int\<close> has no integer for six bytes,
  and the message shows \<open>none\<close> where the claim expects \<open>0x<ext>\<close>.
\<close>

theorem error_status_message_counterexample:
  "error_status_message Little
     \<lparr>reply_service = 0x81, general_status = 0x1F, extended_status = [1, 2, 3, 4, 5, 6]\<rparr> =
   ''Received error status in CIP response: 0x1f, extended: none - Vendor Specific Error''"
  by (simp add: error_status_message_def Let_def hex_1f general_status_message_def
      extended_status_message_def extended_status_to_int_def format_optional_hex_alt_def)

end
